theory Spec2Isabelle
  imports
    Complex_Main
    "HOL-Library.Log_Nat"
    "HOL-Library.AList"
    "HOL-Library.Signed_Division"
begin

section \<open>JavaScript numbers\<close>

text \<open>
  Every number of \<^verbatim>\<open>game.js\<close> is an IEEE-754 binary64 value. A finite double is
  modelled by the real number it denotes, and every arithmetic operator by the exact
  operation followed by rounding to the nearest double, ties to even (\<open>rnd64\<close>).
  The quantum of a real \<open>r\<close> is the spacing of the doubles around it:
  \<open>2 powi (e - 52)\<close> in the binade \<open>2 powi e \<le> \<bar>r\<bar> < 2 powi (e + 1)\<close>, and
  \<open>2 powi (- 1074)\<close> in the subnormal range. \<open>NaN\<close>, the infinities, the sign of zero
  and magnitudes of \<open>2 powi 1024\<close> and more are outside the model.
\<close>

definition round_half_even :: "real \<Rightarrow> int" where
  "round_half_even r =
     (let f = \<lfloor>r\<rfloor>; d = r - of_int f
      in if d < 1 / 2 then f else if 1 / 2 < d then f + 1 else if even f then f else f + 1)"

definition ilog2 :: "real \<Rightarrow> int" where
  "ilog2 r =
     (if 1 \<le> \<bar>r\<bar> then bitlen \<lfloor>\<bar>r\<bar>\<rfloor> - 1 else - bitlen (\<lceil>1 / \<bar>r\<bar>\<rceil> - 1))"

definition quantum :: "real \<Rightarrow> real" where
  "quantum r = 2 powi (max (ilog2 r - 52) (- 1074))"

definition rnd64 :: "real \<Rightarrow> real" where
  "rnd64 r = (if r = 0 then 0 else of_int (round_half_even (r / quantum r)) * quantum r)"

definition is_double :: "real \<Rightarrow> bool" where
  "is_double r \<longleftrightarrow>
     (\<exists>m e. r = of_int m * 2 powi e \<and> \<bar>m\<bar> < 2 ^ 53 \<and> - 1074 \<le> e \<and> e \<le> 971)"

definition jadd :: "real \<Rightarrow> real \<Rightarrow> real" where
  "jadd a b = rnd64 (a + b)"

definition jsub :: "real \<Rightarrow> real \<Rightarrow> real" where
  "jsub a b = rnd64 (a - b)"

definition jmul :: "real \<Rightarrow> real \<Rightarrow> real" where
  "jmul a b = rnd64 (a * b)"

text \<open>Division is only ever by the zoom level and by a non-zero literal.\<close>

definition jdiv :: "real \<Rightarrow> real \<Rightarrow> real" where
  "jdiv a b = rnd64 (a / b)"

text \<open>A decimal literal of the source denotes the double nearest to it.\<close>

definition lit :: "real \<Rightarrow> real" where
  "lit r = rnd64 r"

section \<open>Data model\<close>

text \<open>A JSON value of a property the client does not compute with.\<close>

datatype jsval = JNum real | JStr string | JBool bool | JNull

fun truthy :: "jsval option \<Rightarrow> bool" where
  "truthy None = False"
| "truthy (Some (JNum r)) = (r \<noteq> 0)"
| "truthy (Some (JStr s)) = (s \<noteq> [])"
| "truthy (Some (JBool b)) = b"
| "truthy (Some JNull) = False"

text \<open>
  An object used as a dictionary (\<^verbatim>\<open>this.players\<close>, \<^verbatim>\<open>this.playerPositions\<close>,
  \<^verbatim>\<open>this.playerTargets\<close>, \<^verbatim>\<open>this.avatars\<close>) is a finite map or an association list of
  its own properties. It is a plain object, so a read \<^verbatim>\<open>obj[k]\<close> that finds no own
  property \<open>k\<close> goes on to \<^verbatim>\<open>Object.prototype\<close>, which has the twelve names below: eleven
  built-in functions and the accessor \<^verbatim>\<open>__proto__\<close>, all of them truthy, none of them
  enumerable, and a function has no enumerable property of its own to spread.
\<close>

definition objectPrototype :: "string list" where
  "objectPrototype =
     [''constructor'', ''__defineGetter__'', ''__defineSetter__'', ''hasOwnProperty'',
      ''__lookupGetter__'', ''__lookupSetter__'', ''isPrototypeOf'', ''propertyIsEnumerable'',
      ''toString'', ''valueOf'', ''__proto__'', ''toLocaleString'']"

datatype 'a slot = Own 'a | Inherited | Missing

text \<open>The read \<^verbatim>\<open>obj[k]\<close>.\<close>

definition prop_of :: "(string \<rightharpoonup> 'a) \<Rightarrow> string \<Rightarrow> 'a slot" where
  "prop_of obj k =
     (case obj k of
        Some v \<Rightarrow> Own v
      | None \<Rightarrow> if k \<in> set objectPrototype then Inherited else Missing)"

text \<open>The object literal \<^verbatim>\<open>{ x: ..., y: ... }\<close>.\<close>

record vec =
  vec_x :: real
  vec_y :: real

text \<open>
  An entity of \<^verbatim>\<open>this.players\<close>: its coordinates, typed as numbers, and its other
  properties (\<^verbatim>\<open>id\<close>, \<^verbatim>\<open>username\<close>, \<^verbatim>\<open>avatar\<close>, \<^verbatim>\<open>facing\<close>, \<^verbatim>\<open>isMoving\<close>, ...) by name.
\<close>

record entity = vec +
  props :: "string \<rightharpoonup> jsval"

text \<open>One value of \<^verbatim>\<open>message.players\<close> in a \<^verbatim>\<open>players_moved\<close> message: the properties supplied.\<close>

record patch =
  patch_x :: "real option"
  patch_y :: "real option"
  patch_props :: "string \<rightharpoonup> jsval"

record avatar =
  av_name :: string
  av_frames :: "(string \<times> string list) list"

datatype arrow = ArrowUp | ArrowDown | ArrowLeft | ArrowRight

datatype outmsg =
    JoinGame string
  | MoveDir string
  | MoveTo int int
  | Stop

datatype inmsg =
    JoinGameOk string "(string \<times> entity) list" "(string \<times> avatar) list"
  | JoinGameFailed string
  | PlayersMoved "(string \<times> patch) list"
  | PlayerJoined string entity "avatar option"
  | PlayerLeft string
  | UnknownAction string

text \<open>
  The fields of \<^verbatim>\<open>GameClient\<close>, followed by the part of the browser the client acts on:
  the messages handed to \<^verbatim>\<open>socket.send\<close> (with the socket they went to), the active
  \<^verbatim>\<open>setInterval\<close> handles, the pending \<^verbatim>\<open>setTimeout\<close> handles, the sockets that have
  not closed yet, those of them that are open, the next fresh handle and socket, and
  whether the \<^verbatim>\<open>requestAnimationFrame\<close> callback is still registered.
  \<^verbatim>\<open>worldWidth\<close>, \<^verbatim>\<open>worldHeight\<close> and \<^verbatim>\<open>cameraEasing\<close> are assigned once, in the
  constructor, and are constants below.
\<close>

record client =
  canvasWidth :: real
  canvasHeight :: real
  worldImage :: bool
  socket :: "nat option"
  isConnected :: bool
  playerId :: "string option"
  players :: "(string \<times> entity) list"
  avatars :: "(string \<times> avatar) list"
  myPlayer :: "entity option"
  camera :: vec
  keysPressed :: "arrow \<Rightarrow> bool"
  movementInterval :: "nat option"
  animationTimer :: real
  lastFrameTime :: real
  playerPositions :: "string \<rightharpoonup> vec"
  playerTargets :: "string \<rightharpoonup> vec"
  showMinimap :: bool
  zoomLevel :: real
  sent :: "(nat \<times> outmsg) list"
  intervals :: "nat list"
  timeouts :: "nat list"
  liveSockets :: "nat list"
  openSockets :: "nat list"
  nextHandle :: nat
  nextSocket :: nat
  animationLoop :: bool

definition worldWidth :: real where
  "worldWidth = 2048"

definition worldHeight :: real where
  "worldHeight = 2048"

definition cameraEasing :: real where
  "cameraEasing = lit (1 / 10)"

section \<open>Outcomes\<close>

text \<open>
  A function of the client either returns or throws (a \<^verbatim>\<open>TypeError\<close> on reading a
  property of \<^verbatim>\<open>null\<close> or \<^verbatim>\<open>undefined\<close>, or the \<^verbatim>\<open>InvalidStateError\<close> of
  \<^verbatim>\<open>socket.send\<close>). Both outcomes carry the state reached: the assignments made
  before a throw stay.

  The third outcome marks the point where a run leaves what the data model can express:
  the code takes a built-in function of \<^verbatim>\<open>Object.prototype\<close> for an entity or a position
  and reads a coordinate from it (\<^verbatim>\<open>undefined\<close>, then \<^verbatim>\<open>NaN\<close>), it creates an entity without
  a numeric \<^verbatim>\<open>x\<close> or \<^verbatim>\<open>y\<close>, or an assignment to \<^verbatim>\<open>obj['__proto__']\<close> replaces the prototype
  of a dictionary. It carries the state at that point, and nothing is said of what follows.
\<close>

datatype 'a outcome = Returned 'a | Threw 'a | Beyond 'a

fun state_of :: "'a outcome \<Rightarrow> 'a" where
  "state_of (Returned a) = a"
| "state_of (Threw a) = a"
| "state_of (Beyond a) = a"

definition and_then :: "'a outcome \<Rightarrow> ('a \<Rightarrow> 'a outcome) \<Rightarrow> 'a outcome" where
  "and_then r f = (case r of Returned a \<Rightarrow> f a | Threw a \<Rightarrow> Threw a | Beyond a \<Rightarrow> Beyond a)"

text \<open>The state a handler leaves to the event loop, if the run is still one of the model.\<close>

fun settled :: "'a outcome \<Rightarrow> 'a option" where
  "settled (Returned a) = Some a"
| "settled (Threw a) = Some a"
| "settled (Beyond a) = None"

section \<open>Sending\<close>

text \<open>
  \<^verbatim>\<open>this.socket.send(JSON.stringify(m))\<close>: a \<^verbatim>\<open>TypeError\<close> when \<^verbatim>\<open>this.socket\<close> is
  \<^verbatim>\<open>null\<close>, an \<^verbatim>\<open>InvalidStateError\<close> while the socket is still connecting, nothing
  transmitted once it has closed.
\<close>

definition socket_send :: "outmsg \<Rightarrow> client \<Rightarrow> client outcome" where
  "socket_send m s =
     (case socket s of
        None \<Rightarrow> Threw s
      | Some k \<Rightarrow>
          if k \<in> set (openSockets s) then Returned (s\<lparr>sent := sent s @ [(k, m)]\<rparr>)
          else if k \<in> set (liveSockets s) then Threw s
          else Returned s)"

fun keyToDirection :: "arrow \<Rightarrow> string" where
  "keyToDirection ArrowUp = ''up''"
| "keyToDirection ArrowDown = ''down''"
| "keyToDirection ArrowLeft = ''left''"
| "keyToDirection ArrowRight = ''right''"

definition sendMoveCommand :: "arrow \<Rightarrow> client \<Rightarrow> client outcome" where
  "sendMoveCommand key s =
     (if \<not> isConnected s then Returned s
      else let direction = keyToDirection key
           in if direction \<noteq> [] then socket_send (MoveDir direction) s else Returned s)"

definition keyPriority :: "arrow list" where
  "keyPriority = [ArrowUp, ArrowDown, ArrowLeft, ArrowRight]"

text \<open>The \<^verbatim>\<open>for ... of\<close> loop with its \<^verbatim>\<open>break\<close>.\<close>

fun sendFirstActive :: "arrow list \<Rightarrow> client \<Rightarrow> client outcome" where
  "sendFirstActive [] s = Returned s"
| "sendFirstActive (key # keys) s =
     (if keysPressed s key then sendMoveCommand key s else sendFirstActive keys s)"

definition sendMoveCommandForActiveKeys :: "client \<Rightarrow> client outcome" where
  "sendMoveCommandForActiveKeys s =
     (if \<not> isConnected s then Returned s else sendFirstActive keyPriority s)"

definition sendStopCommand :: "client \<Rightarrow> client outcome" where
  "sendStopCommand s = (if \<not> isConnected s then Returned s else socket_send Stop s)"

section \<open>Interpolation, camera and the frame\<close>

definition lerpSpeed :: real where
  "lerpSpeed = lit (15 / 100)"

text \<open>One \<^verbatim>\<open>current.x += (target.x - current.x) * lerpSpeed\<close>.\<close>

definition lerp :: "real \<Rightarrow> real \<Rightarrow> real" where
  "lerp current target = jadd current (jmul (jsub target current) lerpSpeed)"

type_synonym interp = "(string \<rightharpoonup> vec) \<times> (string \<rightharpoonup> vec)"

text \<open>
  The body of the loop of \<^verbatim>\<open>updatePlayerInterpolation\<close> on \<^verbatim>\<open>playerPositions\<close> and
  \<^verbatim>\<open>playerTargets\<close>. The records are created when \<^verbatim>\<open>this.playerPositions[playerId]\<close> is
  falsy, which an inherited function is not. Reading \<^verbatim>\<open>this.playerTargets[playerId].x\<close>
  throws when there is no target at all; an inherited target or position is a function,
  whose \<^verbatim>\<open>x\<close> the code goes on to read.
\<close>

definition interpolatePlayer :: "string \<Rightarrow> entity \<Rightarrow> interp \<Rightarrow> interp outcome" where
  "interpolatePlayer pid player pt =
     (let here = \<lparr>vec_x = vec_x player, vec_y = vec_y player\<rparr>;
          (pos1, tgt1) =
            (if prop_of (fst pt) pid = Missing
             then ((fst pt)(pid \<mapsto> here), (snd pt)(pid \<mapsto> here)) else pt)
      in case prop_of tgt1 pid of
           Missing \<Rightarrow> Threw (pos1, tgt1)
         | Inherited \<Rightarrow> Beyond (pos1, tgt1)
         | Own old_target \<Rightarrow>
             let tgt2 =
                   (if vec_x old_target \<noteq> vec_x player \<or> vec_y old_target \<noteq> vec_y player
                    then tgt1(pid \<mapsto> here) else tgt1)
             in case (prop_of pos1 pid, prop_of tgt2 pid) of
                  (Own current, Own target) \<Rightarrow>
                    Returned
                      (pos1(pid \<mapsto> \<lparr>vec_x = lerp (vec_x current) (vec_x target),
                                     vec_y = lerp (vec_y current) (vec_y target)\<rparr>),
                       tgt2)
                | (Inherited, _) \<Rightarrow> Beyond (pos1, tgt2)
                | _ \<Rightarrow> Threw (pos1, tgt2))"

text \<open>
  The \<^verbatim>\<open>for ... in\<close> loop over the ids of \<^verbatim>\<open>this.players\<close>, which are its own
  properties.
\<close>

fun interpolateAll ::
  "string list \<Rightarrow> (string \<times> entity) list \<Rightarrow> interp \<Rightarrow> interp outcome" where
  "interpolateAll [] ps pt = Returned pt"
| "interpolateAll (pid # pids) ps pt =
     (case map_of ps pid of
        None \<Rightarrow> Threw pt
      | Some player \<Rightarrow> and_then (interpolatePlayer pid player pt) (interpolateAll pids ps))"

definition updatePlayerInterpolation :: "real \<Rightarrow> client \<Rightarrow> client outcome" where
  "updatePlayerInterpolation deltaTime s =
     map_outcome (\<lambda>(pos, tgt). s\<lparr>playerPositions := pos, playerTargets := tgt\<rparr>)
       (interpolateAll (map fst (players s)) (players s)
          (playerPositions s, playerTargets s))"

text \<open>The property key that \<^verbatim>\<open>this.playerId\<close> denotes in \<^verbatim>\<open>obj[this.playerId]\<close>.\<close>

fun key_of :: "string option \<Rightarrow> string" where
  "key_of None = ''null''"
| "key_of (Some i) = i"

text \<open>
  \<^verbatim>\<open>updateCameraSmooth\<close>. The position is \<^verbatim>\<open>this.playerPositions[this.playerId] ||
  this.myPlayer\<close>, so an inherited function is taken for the position.
\<close>

definition updateCameraSmooth :: "client \<Rightarrow> client outcome" where
  "updateCameraSmooth s =
     (case myPlayer s of
        None \<Rightarrow> Returned s
      | Some me \<Rightarrow>
          if prop_of (playerPositions s) (key_of (playerId s)) = Inherited then Beyond s
          else
          let playerPos =
                (case playerPositions s (key_of (playerId s)) of
                   Some p \<Rightarrow> p
                 | None \<Rightarrow> \<lparr>vec_x = vec_x me, vec_y = vec_y me\<rparr>);
              targetX = jsub (vec_x playerPos) (jdiv (jdiv (canvasWidth s) (zoomLevel s)) 2);
              targetY = jsub (vec_y playerPos) (jdiv (jdiv (canvasHeight s) (zoomLevel s)) 2);
              camX = jadd (vec_x (camera s)) (jmul (jsub targetX (vec_x (camera s))) cameraEasing);
              camY = jadd (vec_y (camera s)) (jmul (jsub targetY (vec_y (camera s))) cameraEasing);
              maxX = jsub worldWidth (jdiv (canvasWidth s) (zoomLevel s));
              maxY = jsub worldHeight (jdiv (canvasHeight s) (zoomLevel s))
          in Returned
               (s\<lparr>camera := \<lparr>vec_x = max 0 (min camX maxX), vec_y = max 0 (min camY maxY)\<rparr>\<rparr>))"

text \<open>
  \<^verbatim>\<open>render(currentTime = 0)\<close>, without the calls of the canvas: the timers, the
  interpolation and the camera.
\<close>

definition render :: "real \<Rightarrow> client \<Rightarrow> client outcome" where
  "render currentTime s =
     (let deltaTime = jsub currentTime (lastFrameTime s);
          s1 = s\<lparr>lastFrameTime := currentTime,
                 animationTimer := jadd (animationTimer s) deltaTime\<rparr>
      in if \<not> worldImage s1 then Returned s1
         else and_then (updatePlayerInterpolation deltaTime s1) updateCameraSmooth)"

text \<open>
  The frame index and the direction that \<^verbatim>\<open>drawPlayer\<close> selects, once the avatar's
  images are there. \<^verbatim>\<open>%\<close> takes the sign of the dividend.
\<close>

definition animationFrame :: "entity \<Rightarrow> real \<Rightarrow> int" where
  "animationFrame player timer =
     (if truthy (props player ''isMoving'')
      then let frameSpeed = 200; numFrames = 3
           in \<lfloor>jdiv timer frameSpeed\<rfloor> smod numFrames
      else 0)"

definition facingDirection :: "entity \<Rightarrow> jsval \<times> bool" where
  "facingDirection player =
     (let direction =
            (if truthy (props player ''facing'') then the (props player ''facing'')
             else JStr ''south'')
      in if direction = JStr ''west'' then (JStr ''east'', True) else (direction, False))"

section \<open>Server messages\<close>

text \<open>
  \<^verbatim>\<open>loadAvatarImages\<close> creates the images (the work of the asset loader) and renders.
\<close>

definition loadAvatarImages :: "client \<Rightarrow> client outcome" where
  "loadAvatarImages s = render 0 s"

text \<open>
  \<^verbatim>\<open>handleJoinGameSuccess\<close>. An id that the snapshot does not hold leaves \<^verbatim>\<open>this.myPlayer\<close>
  undefined, unless \<^verbatim>\<open>Object.prototype\<close> has that name.
\<close>

definition handleJoinGameSuccess ::
  "string \<Rightarrow> (string \<times> entity) list \<Rightarrow> (string \<times> avatar) list \<Rightarrow> client \<Rightarrow> client outcome" where
  "handleJoinGameSuccess pid ps avs s =
     (let s1 = s\<lparr>playerId := Some pid, players := ps, avatars := avs\<rparr>
      in if prop_of (map_of ps) pid = Inherited then Beyond s1
         else loadAvatarImages (s1\<lparr>myPlayer := map_of ps pid\<rparr>))"

text \<open>The object spread \<^verbatim>\<open>{ ...old, ...update }\<close>.\<close>

definition spread :: "entity \<Rightarrow> patch \<Rightarrow> entity" where
  "spread old update =
     old\<lparr>vec_x := (case patch_x update of None \<Rightarrow> vec_x old | Some v \<Rightarrow> v),
         vec_y := (case patch_y update of None \<Rightarrow> vec_y old | Some v \<Rightarrow> v),
         props := props old ++ patch_props update\<rparr>"

text \<open>
  The entity that \<^verbatim>\<open>{ ...f, ...update }\<close> is when \<open>f\<close> is a function: the properties of
  the update and no other. It is an entity of the model if the update has both
  coordinates.
\<close>

definition entity_of :: "patch \<Rightarrow> entity option" where
  "entity_of update =
     (case (patch_x update, patch_y update) of
        (Some x, Some y) \<Rightarrow> Some \<lparr>vec_x = x, vec_y = y, props = patch_props update\<rparr>
      | _ \<Rightarrow> None)"

text \<open>
  The loop of \<^verbatim>\<open>handlePlayersMove\<close> over the ids of \<^verbatim>\<open>message.players\<close>. The test
  \<^verbatim>\<open>if (this.players[playerId])\<close> holds for an entity of the store and for a name of
  \<^verbatim>\<open>Object.prototype\<close>; in the second case the assignment creates the entity from the
  update alone.
\<close>

fun mergePlayers ::
  "string list \<Rightarrow> (string \<times> patch) list \<Rightarrow> (string \<times> entity) list \<Rightarrow>
     (string \<times> entity) list outcome" where
  "mergePlayers [] upd ps = Returned ps"
| "mergePlayers (pid # pids) upd ps =
     (case map_of upd pid of
        None \<Rightarrow> mergePlayers pids upd ps
      | Some update \<Rightarrow>
          (case prop_of (map_of ps) pid of
             Missing \<Rightarrow> mergePlayers pids upd ps
           | Own old \<Rightarrow> mergePlayers pids upd (AList.update pid (spread old update) ps)
           | Inherited \<Rightarrow>
               if pid = ''__proto__'' then Beyond ps
               else (case entity_of update of
                       None \<Rightarrow> Beyond ps
                     | Some created \<Rightarrow> mergePlayers pids upd (AList.update pid created ps))))"

definition handlePlayersMove :: "(string \<times> patch) list \<Rightarrow> client \<Rightarrow> client outcome" where
  "handlePlayersMove upd s =
     and_then (map_outcome (\<lambda>ps. s\<lparr>players := ps\<rparr>) (mergePlayers (map fst upd) upd (players s)))
       (\<lambda>s1. if playerId s1 \<noteq> None \<and> playerId s1 \<noteq> Some []
              then (case prop_of (map_of (players s1)) (key_of (playerId s1)) of
                      Missing \<Rightarrow> render 0 s1
                    | Own me \<Rightarrow> render 0 (s1\<lparr>myPlayer := Some me\<rparr>)
                    | Inherited \<Rightarrow> Beyond s1)
              else render 0 s1)"

text \<open>
  The assignment \<^verbatim>\<open>obj[k] = v\<close>: it writes an own property, except that for \<^verbatim>\<open>__proto__\<close>,
  unless the object has it as an own property, it replaces the prototype of the object.
\<close>

definition assign :: "string \<Rightarrow> 'a \<Rightarrow> (string \<times> 'a) list \<Rightarrow> (string \<times> 'a) list option" where
  "assign k v obj =
     (if k = ''__proto__'' \<and> map_of obj k = None then None else Some (AList.update k v obj))"

definition handlePlayerJoined :: "string \<Rightarrow> entity \<Rightarrow> avatar option \<Rightarrow> client \<Rightarrow> client outcome" where
  "handlePlayerJoined pid player av s =
     (case assign pid player (players s) of
        None \<Rightarrow> Beyond s
      | Some ps \<Rightarrow>
          let s1 = s\<lparr>players := ps\<rparr>
          in case av of
               None \<Rightarrow> render 0 s1
             | Some a \<Rightarrow>
                 (case assign (av_name a) a (avatars s1) of
                    None \<Rightarrow> Beyond s1
                  | Some avs \<Rightarrow> render 0 (s1\<lparr>avatars := avs\<rparr>)))"

definition handlePlayerLeft :: "string \<Rightarrow> client \<Rightarrow> client outcome" where
  "handlePlayerLeft pid s =
     render 0
       (s\<lparr>players := AList.delete pid (players s),
          playerPositions := (playerPositions s)(pid := None),
          playerTargets := (playerTargets s)(pid := None)\<rparr>)"

fun handleServerMessage :: "inmsg \<Rightarrow> client \<Rightarrow> client outcome" where
  "handleServerMessage (JoinGameOk pid ps avs) s = handleJoinGameSuccess pid ps avs s"
| "handleServerMessage (JoinGameFailed err) s = Returned s"
| "handleServerMessage (PlayersMoved upd) s = handlePlayersMove upd s"
| "handleServerMessage (PlayerJoined pid player av) s = handlePlayerJoined pid player av s"
| "handleServerMessage (PlayerLeft pid) s = handlePlayerLeft pid s"
| "handleServerMessage (UnknownAction a) s = Returned s"

section \<open>Connection\<close>

definition connectToServer :: "client \<Rightarrow> client" where
  "connectToServer s =
     s\<lparr>socket := Some (nextSocket s),
       liveSockets := nextSocket s # liveSockets s,
       nextSocket := Suc (nextSocket s)\<rparr>"

definition joinGame :: "client \<Rightarrow> client outcome" where
  "joinGame s = (if \<not> isConnected s then Returned s else socket_send (JoinGame ''Mike'') s)"

definition socket_onopen :: "client \<Rightarrow> client outcome" where
  "socket_onopen s = joinGame (s\<lparr>isConnected := True\<rparr>)"

text \<open>The \<^verbatim>\<open>try ... catch\<close> around \<^verbatim>\<open>handleServerMessage\<close> keeps the state of a throw.\<close>

definition socket_onmessage :: "inmsg \<Rightarrow> client \<Rightarrow> client option" where
  "socket_onmessage m s = settled (handleServerMessage m s)"

text \<open>\<^verbatim>\<open>setTimeout(() => this.connectToServer(), 3000)\<close>: the handle is not kept.\<close>

definition socket_onclose :: "client \<Rightarrow> client" where
  "socket_onclose s =
     s\<lparr>isConnected := False,
       timeouts := nextHandle s # timeouts s,
       nextHandle := Suc (nextHandle s)\<rparr>"

section \<open>Keyboard\<close>

text \<open>
  A timer handle is a positive integer, so \<^verbatim>\<open>if (this.movementInterval)\<close> tests for
  a handle other than \<^verbatim>\<open>null\<close> and \<open>0\<close>.
\<close>

fun truthy_handle :: "nat option \<Rightarrow> bool" where
  "truthy_handle None = False"
| "truthy_handle (Some h) = (h \<noteq> 0)"

definition startContinuousMovement :: "client \<Rightarrow> client outcome" where
  "startContinuousMovement s =
     (if truthy_handle (movementInterval s) then Returned s
      else and_then (sendMoveCommandForActiveKeys s)
             (\<lambda>s1. Returned
                (s1\<lparr>movementInterval := Some (nextHandle s1),
                    intervals := nextHandle s1 # intervals s1,
                    nextHandle := Suc (nextHandle s1)\<rparr>)))"

definition stopContinuousMovement :: "client \<Rightarrow> client outcome" where
  "stopContinuousMovement s =
     sendStopCommand
       (if truthy_handle (movementInterval s)
        then s\<lparr>intervals := removeAll (the (movementInterval s)) (intervals s),
               movementInterval := None\<rparr>
        else s)"

text \<open>The test \<^verbatim>\<open>[...].includes(event.key)\<close>.\<close>

definition arrow_of :: "string \<Rightarrow> arrow option" where
  "arrow_of k =
     (if k = ''ArrowUp'' then Some ArrowUp
      else if k = ''ArrowDown'' then Some ArrowDown
      else if k = ''ArrowLeft'' then Some ArrowLeft
      else if k = ''ArrowRight'' then Some ArrowRight
      else None)"

definition handleKeyDown :: "string \<Rightarrow> client \<Rightarrow> client outcome" where
  "handleKeyDown k s =
     (case arrow_of k of
        None \<Rightarrow> Returned s
      | Some key \<Rightarrow>
          if keysPressed s key then Returned s
          else startContinuousMovement (s\<lparr>keysPressed := (keysPressed s)(key := True)\<rparr>))"

definition anyKeyPressed :: "client \<Rightarrow> bool" where
  "anyKeyPressed s = list_ex (keysPressed s) [ArrowUp, ArrowDown, ArrowLeft, ArrowRight]"

definition handleKeyUp :: "string \<Rightarrow> client \<Rightarrow> client outcome" where
  "handleKeyUp k s =
     (case arrow_of k of
        None \<Rightarrow> Returned s
      | Some key \<Rightarrow>
          let s1 = s\<lparr>keysPressed := (keysPressed s)(key := False)\<rparr>
          in if \<not> anyKeyPressed s1 then stopContinuousMovement s1 else Returned s1)"

section \<open>Pointer\<close>

text \<open>The click event with the canvas' bounding rectangle.\<close>

record click =
  clientX :: real
  clientY :: real
  rectLeft :: real
  rectTop :: real

definition handleCanvasClick :: "click \<Rightarrow> client \<Rightarrow> client outcome" where
  "handleCanvasClick ev s =
     (if \<not> isConnected s \<or> myPlayer s = None then Returned s
      else let clickX = jsub (clientX ev) (rectLeft ev);
               clickY = jsub (clientY ev) (rectTop ev);
               worldX = jadd (jdiv clickX (zoomLevel s)) (vec_x (camera s));
               worldY = jadd (jdiv clickY (zoomLevel s)) (vec_y (camera s));
               targetX = max 0 (min worldX worldWidth);
               targetY = max 0 (min worldY worldHeight)
           in socket_send (MoveTo \<lfloor>targetX\<rfloor> \<lfloor>targetY\<rfloor>) s)"

section \<open>Zoom and canvas size\<close>

definition handleKeyboardShortcuts :: "string \<Rightarrow> client \<Rightarrow> client" where
  "handleKeyboardShortcuts k s =
     (if k = ''m'' \<or> k = ''M'' then s\<lparr>showMinimap := \<not> showMinimap s\<rparr>
      else if k = ''r'' \<or> k = ''R'' then s\<lparr>zoomLevel := 1\<rparr>
      else if k = ''+'' \<or> k = ''='' then s\<lparr>zoomLevel := min (jadd (zoomLevel s) (lit (2 / 10))) 3\<rparr>
      else if k = ''-'' then s\<lparr>zoomLevel := max (jsub (zoomLevel s) (lit (2 / 10))) (lit (5 / 10))\<rparr>
      else s)"

definition handleMouseWheel :: "real \<Rightarrow> client \<Rightarrow> client outcome" where
  "handleMouseWheel deltaY s =
     (let zoomSpeed = lit (1 / 10); minZoom = lit (5 / 10); maxZoom = 3
      in render 0
           (if deltaY < 0 then s\<lparr>zoomLevel := min (jadd (zoomLevel s) zoomSpeed) maxZoom\<rparr>
            else s\<lparr>zoomLevel := max (jsub (zoomLevel s) zoomSpeed) minZoom\<rparr>))"

definition resizeCanvas :: "real \<Rightarrow> real \<Rightarrow> client \<Rightarrow> client outcome" where
  "resizeCanvas innerWidth innerHeight s =
     (let s1 = s\<lparr>canvasWidth := innerWidth, canvasHeight := innerHeight\<rparr>
      in if worldImage s1 then render 0 s1 else Returned s1)"

section \<open>The constructor and the event loop\<close>

text \<open>
  The state that \<^verbatim>\<open>new GameClient()\<close> leaves in a window of the given inner size:
  the fields as the constructor assigns them, then \<^verbatim>\<open>init()\<close>, which sizes the canvas
  (nothing is rendered, the world image being \<^verbatim>\<open>null\<close>), registers the animation
  callback, creates the world image and connects.
\<close>

definition new_client :: "real \<Rightarrow> real \<Rightarrow> client" where
  "new_client innerWidth innerHeight =
     connectToServer
       \<lparr>canvasWidth = innerWidth, canvasHeight = innerHeight, worldImage = True,
        socket = None, isConnected = False, playerId = None, players = [], avatars = [],
        myPlayer = None, camera = \<lparr>vec_x = 0, vec_y = 0\<rparr>, keysPressed = (\<lambda>key. False),
        movementInterval = None, animationTimer = 0, lastFrameTime = 0,
        playerPositions = Map.empty, playerTargets = Map.empty, showMinimap = True,
        zoomLevel = 1, sent = [], intervals = [], timeouts = [], liveSockets = [],
        openSockets = [], nextHandle = 1, nextSocket = 0, animationLoop = True\<rparr>"

text \<open>
  What the browser can deliver: input events, a display frame with its timestamp, the load
  of an image, a tick of an active interval, the firing of a pending timeout, and the
  events of a socket that has not closed (a payload that \<^verbatim>\<open>JSON.parse\<close> rejects is
  \<open>SocketGarbage\<close>).
\<close>

datatype event =
    KeyDown string
  | KeyUp string
  | Click click
  | Wheel real
  | Resize real real
  | ImageLoaded
  | Frame real
  | IntervalTick nat
  | TimeoutFires nat
  | SocketOpen nat
  | SocketMessage nat inmsg
  | SocketGarbage nat
  | SocketClose nat

text \<open>
  One turn of the event loop; \<open>None\<close> when the browser cannot deliver the event in
  this state, and when the turn leaves the model. An exception that leaves a handler ends
  the turn with the state reached; one that leaves \<^verbatim>\<open>animate\<close> also keeps it from
  registering itself again. The handlers of the keys, the click, the interval and the
  opening of the socket read no dictionary: they return or throw.
\<close>

fun fire :: "event \<Rightarrow> client \<Rightarrow> client option" where
  "fire (KeyDown k) s = Some (handleKeyboardShortcuts k (state_of (handleKeyDown k s)))"
| "fire (KeyUp k) s = Some (state_of (handleKeyUp k s))"
| "fire (Click ev) s = Some (state_of (handleCanvasClick ev s))"
| "fire (Wheel deltaY) s = settled (handleMouseWheel deltaY s)"
| "fire (Resize w h) s = settled (resizeCanvas w h s)"
| "fire ImageLoaded s = settled (render 0 s)"
| "fire (Frame t) s =
     (if animationLoop s
      then (case render t s of
              Returned s1 \<Rightarrow> Some s1
            | Threw s1 \<Rightarrow> Some (s1\<lparr>animationLoop := False\<rparr>)
            | Beyond s1 \<Rightarrow> None)
      else None)"
| "fire (IntervalTick h) s =
     (if h \<in> set (intervals s) then Some (state_of (sendMoveCommandForActiveKeys s)) else None)"
| "fire (TimeoutFires h) s =
     (if h \<in> set (timeouts s)
      then Some (connectToServer (s\<lparr>timeouts := removeAll h (timeouts s)\<rparr>))
      else None)"
| "fire (SocketOpen k) s =
     (if k \<in> set (liveSockets s) \<and> k \<notin> set (openSockets s)
      then Some (state_of (socket_onopen (s\<lparr>openSockets := k # openSockets s\<rparr>)))
      else None)"
| "fire (SocketMessage k m) s =
     (if k \<in> set (openSockets s) then socket_onmessage m s else None)"
| "fire (SocketGarbage k) s = (if k \<in> set (openSockets s) then Some s else None)"
| "fire (SocketClose k) s =
     (if k \<in> set (liveSockets s)
      then Some (socket_onclose
                   (s\<lparr>liveSockets := removeAll k (liveSockets s),
                      openSockets := removeAll k (openSockets s)\<rparr>))
      else None)"

fun run :: "event list \<Rightarrow> client \<Rightarrow> client option" where
  "run [] s = Some s"
| "run (e # es) s = (case fire e s of None \<Rightarrow> None | Some s1 \<Rightarrow> run es s1)"

inductive reachable :: "client \<Rightarrow> bool" where
  start: "reachable (new_client innerWidth innerHeight)"
| turn: "reachable s \<Longrightarrow> fire e s = Some s1 \<Longrightarrow> reachable s1"

section \<open>Timers and sockets\<close>

text \<open>
  The fields that the timers and the sockets live in, and what holds of them in every
  state the event loop reaches: a movement handle is never \<open>0\<close>, the active intervals are
  exactly the one the handle names, a pending reconnect timeout and a socket that has not
  closed exclude each other and there is one of the two, an open socket has not closed,
  \<^verbatim>\<open>this.socket\<close> is the socket that has not closed, and a connected client has its
  socket open.
\<close>

definition timer_view ::
  "client \<Rightarrow> nat \<times> nat option \<times> nat list \<times> nat list \<times> nat list \<times> nat list \<times> nat option \<times> bool" where
  "timer_view s =
     (nextHandle s, movementInterval s, intervals s, timeouts s, liveSockets s, openSockets s,
      socket s, isConnected s)"

definition timers_inv :: "client \<Rightarrow> bool" where
  "timers_inv s \<longleftrightarrow>
     0 < nextHandle s
     \<and> movementInterval s \<noteq> Some 0
     \<and> intervals s = (case movementInterval s of None \<Rightarrow> [] | Some h \<Rightarrow> [h])
     \<and> length (timeouts s) + length (liveSockets s) = 1
     \<and> set (openSockets s) \<subseteq> set (liveSockets s)
     \<and> (\<forall>k \<in> set (liveSockets s). socket s = Some k)
     \<and> (isConnected s \<longrightarrow> (\<exists>k. socket s = Some k \<and> k \<in> set (openSockets s)))"

section \<open>Scenarios\<close>

text \<open>
  States and messages used to run the handlers on concrete inputs: the client of an
  800 by 600 window once its first socket has opened, the same client with the Up and
  Left keys held, the client whose first socket closed before it opened, two entities,
  a partial update, an update with both coordinates, and two snapshots.
\<close>

definition connected_client :: client where
  "connected_client =
     (new_client 800 600)\<lparr>isConnected := True, openSockets := [0],
                            sent := [(0, JoinGame ''Mike'')]\<rparr>"

definition holding_up_left :: client where
  "holding_up_left =
     connected_client\<lparr>keysPressed := (\<lambda>key. False)(ArrowUp := True, ArrowLeft := True),
                       movementInterval := Some 1, intervals := [1], nextHandle := 2,
                       sent := [(0, JoinGame ''Mike''), (0, MoveDir ''up'')]\<rparr>"

definition alice :: entity where
  "alice =
     \<lparr>vec_x = 100, vec_y = 200,
      props = [''id'' \<mapsto> JStr ''p1'', ''username'' \<mapsto> JStr ''alice'',
               ''facing'' \<mapsto> JStr ''south'', ''isMoving'' \<mapsto> JBool False]\<rparr>"

definition bob :: entity where
  "bob =
     \<lparr>vec_x = 300, vec_y = 400,
      props = [''id'' \<mapsto> JStr ''p7'', ''username'' \<mapsto> JStr ''bob'',
               ''facing'' \<mapsto> JStr ''east'', ''isMoving'' \<mapsto> JBool True]\<rparr>"

definition step_east :: patch where
  "step_east =
     \<lparr>patch_x = Some 105, patch_y = None,
      patch_props = [''facing'' \<mapsto> JStr ''east'', ''isMoving'' \<mapsto> JBool True]\<rparr>"

definition full_update :: patch where
  "full_update = \<lparr>patch_x = Some 640, patch_y = Some 480, patch_props = Map.empty\<rparr>"


definition snapshot_two :: inmsg where
  "snapshot_two = JoinGameOk ''p1'' [(''p1'', alice), (''p7'', bob)] []"

definition snapshot_one :: inmsg where
  "snapshot_one = JoinGameOk ''p2'' [(''p2'', alice)] []"


section \<open>Properties\<close>

subsection \<open>Rounding to the nearest double\<close>

lemma quantum_pos: "0 < quantum r"
  by (simp add: quantum_def)

lemma round_half_even_cases:
  "round_half_even x = \<lfloor>x\<rfloor> \<and> x - of_int \<lfloor>x\<rfloor> \<le> 1 / 2
   \<or> round_half_even x = \<lfloor>x\<rfloor> + 1 \<and> 1 / 2 \<le> x - of_int \<lfloor>x\<rfloor>"
  by (auto simp add: round_half_even_def Let_def)

lemma round_half_even_nearest:
  "\<bar>of_int (round_half_even x) - x\<bar> \<le> \<bar>of_int j - x\<bar>"
proof -
  have f: "of_int \<lfloor>x\<rfloor> \<le> x" "x < of_int \<lfloor>x\<rfloor> + 1"
    by linarith+
  consider "j \<le> \<lfloor>x\<rfloor>" | "\<lfloor>x\<rfloor> + 1 \<le> j" by linarith
  then show ?thesis
  proof cases
    case 1
    then have "(of_int j :: real) \<le> of_int \<lfloor>x\<rfloor>" by simp
    with f round_half_even_cases [of x] show ?thesis by auto
  next
    case 2
    then have "(of_int \<lfloor>x\<rfloor> :: real) + 1 \<le> of_int j"
      by (metis of_int_1 of_int_add of_int_le_iff)
    with f round_half_even_cases [of x] show ?thesis by auto
  qed
qed

lemma round_half_even_nonneg: "0 \<le> x \<Longrightarrow> 0 \<le> round_half_even x"
  using round_half_even_cases [of x] by (auto simp add: zero_le_floor) 

lemma rnd64_nonneg: "0 \<le> r \<Longrightarrow> 0 \<le> rnd64 r"
  using quantum_pos [of r] by (simp add: rnd64_def round_half_even_nonneg)

lemma bitlen_bounds_real:
  assumes "0 < n"
  shows "(2::real) ^ nat (bitlen n - 1) \<le> of_int n" and "of_int n < (2::real) ^ nat (bitlen n)"
proof -
  from bitlen_bounds [OF assms]
  have a: "2 ^ nat (bitlen n - 1) \<le> n" and b: "n < 2 ^ nat (bitlen n)" by simp_all
  from a have "(of_int (2 ^ nat (bitlen n - 1)) :: real) \<le> of_int n"
    by (simp only: of_int_le_iff)
  then show "(2::real) ^ nat (bitlen n - 1) \<le> of_int n" by simp
  from b have "(of_int n :: real) < of_int (2 ^ nat (bitlen n))"
    by (simp only: of_int_less_iff)
  then show "of_int n < (2::real) ^ nat (bitlen n)" by simp
qed

lemma pow2_neg: "0 \<le> k \<Longrightarrow> (2::real) powi (- k) = 1 / 2 ^ nat k"
  by (simp only: power_int_minus_divide power_int_nonneg_exp)

lemma ilog2_ge1:
  assumes "1 \<le> \<bar>r\<bar>"
  shows "2 powi (ilog2 r) \<le> \<bar>r\<bar>" and "\<bar>r\<bar> < 2 powi (ilog2 r + 1)"
proof -
  define n where "n = \<lfloor>\<bar>r\<bar>\<rfloor>"
  have n: "0 < n" using assms by (simp add: n_def)
  have k: "1 \<le> bitlen n" using n by (simp add: bitlen_alt_def)
  have i: "ilog2 r = bitlen n - 1" using assms by (simp add: ilog2_def n_def)
  have fl: "of_int n \<le> \<bar>r\<bar>" "\<bar>r\<bar> < of_int n + 1"
    unfolding n_def by linarith+
  have "(2::real) powi (bitlen n - 1) = 2 ^ nat (bitlen n - 1)"
    using k by (simp only: power_int_nonneg_exp)
  with bitlen_bounds_real(1) [OF n] fl(1) show "2 powi (ilog2 r) \<le> \<bar>r\<bar>"
    unfolding i by linarith
  from bitlen_bounds [OF n] have "n + 1 \<le> 2 ^ nat (bitlen n)" by simp
  then have "(of_int (n + 1) :: real) \<le> of_int (2 ^ nat (bitlen n))"
    by (simp only: of_int_le_iff)
  then have "(of_int n :: real) + 1 \<le> 2 ^ nat (bitlen n)" by simp
  moreover have "(2::real) powi (bitlen n - 1 + 1) = 2 ^ nat (bitlen n)"
    using k by (simp add: power_int_nonneg_exp)
  ultimately show "\<bar>r\<bar> < 2 powi (ilog2 r + 1)"
    unfolding i using fl(2) by linarith
qed

lemma ilog2_lt1:
  assumes "r \<noteq> 0" and "\<not> 1 \<le> \<bar>r\<bar>"
  shows "2 powi (ilog2 r) \<le> \<bar>r\<bar>" and "\<bar>r\<bar> < 2 powi (ilog2 r + 1)"
proof -
  define y where "y = 1 / \<bar>r\<bar>"
  define m where "m = \<lceil>y\<rceil>"
  define k where "k = bitlen (m - 1)"
  have r: "0 < \<bar>r\<bar>" using assms(1) by simp
  have y: "1 < y" using assms r by (simp add: y_def)
  have m: "0 < m - 1" using y unfolding m_def by linarith
  have k: "1 \<le> k" using m by (simp add: k_def bitlen_alt_def)
  have i: "ilog2 r = - k" using assms(2) by (simp add: ilog2_def k_def m_def y_def)
  have ce: "y \<le> of_int m" "of_int m - 1 < y" unfolding m_def by linarith+
  have ry: "\<bar>r\<bar> = 1 / y" using r by (simp add: y_def)
  from bitlen_bounds [OF m] have "m \<le> 2 ^ nat k" unfolding k_def by simp
  then have "(of_int m :: real) \<le> of_int (2 ^ nat k)" by (simp only: of_int_le_iff)
  then have "(of_int m :: real) \<le> 2 ^ nat k" by simp
  with ce(1) have "y \<le> 2 ^ nat k" by linarith
  then have "1 / 2 ^ nat k \<le> 1 / y"
    using y by (intro divide_left_mono) simp_all
  moreover have "(2::real) powi (- k) = 1 / 2 ^ nat k"
    using k by (intro pow2_neg) simp
  ultimately show "2 powi (ilog2 r) \<le> \<bar>r\<bar>"
    unfolding i ry by simp
  have "(2::real) ^ nat (k - 1) \<le> of_int (m - 1)"
    unfolding k_def by (rule bitlen_bounds_real(1) [OF m])
  with ce(2) have lt: "(2::real) ^ nat (k - 1) < y" by simp
  have "0 < y * 2 ^ nat (k - 1)"
    using y by simp
  with lt have "1 / y < 1 / 2 ^ nat (k - 1)"
    by (intro divide_strict_left_mono) simp_all
  moreover have "(2::real) powi (- (k - 1)) = 1 / 2 ^ nat (k - 1)"
    using k by (intro pow2_neg) simp
  moreover have "- k + 1 = - (k - 1)" by simp
  ultimately show "\<bar>r\<bar> < 2 powi (ilog2 r + 1)"
    unfolding i ry by simp
qed

lemma ilog2_bounds:
  assumes "r \<noteq> 0"
  shows "2 powi (ilog2 r) \<le> \<bar>r\<bar>" and "\<bar>r\<bar> < 2 powi (ilog2 r + 1)"
  using assms ilog2_ge1 [of r] ilog2_lt1 [of r] by blast+

lemma rnd64_nearest_multiple:
  "\<bar>rnd64 r - r\<bar> \<le> \<bar>of_int j * quantum r - r\<bar>"
proof (cases "r = 0")
  case True
  then show ?thesis by (simp add: rnd64_def)
next
  case False
  define q where "q = quantum r"
  have q: "0 < q" by (simp add: q_def quantum_pos)
  have "\<bar>of_int (round_half_even (r / q)) - r / q\<bar> \<le> \<bar>of_int j - r / q\<bar>"
    by (rule round_half_even_nearest)
  then have "\<bar>of_int (round_half_even (r / q)) - r / q\<bar> * q \<le> \<bar>of_int j - r / q\<bar> * q"
    using q by (simp add: mult_right_mono)
  moreover have "\<bar>x - r / q\<bar> * q = \<bar>x * q - r\<bar>" for x
  proof -
    have "\<bar>x - r / q\<bar> * q = \<bar>x - r / q\<bar> * \<bar>q\<bar>" using q by simp
    also have "\<dots> = \<bar>(x - r / q) * q\<bar>" by (simp add: abs_mult)
    also have "(x - r / q) * q = x * q - r" using q by (simp add: field_simps)
    finally show ?thesis .
  qed
  ultimately show ?thesis
    using False by (simp add: rnd64_def q_def)
qed

lemma pow2_add: "(2::real) powi a * 2 powi b = 2 powi (a + b)"
  by (simp add: power_int_add)

lemma pow2_53: "(2::real) ^ 53 = 2 powi 53"
  by simp

lemma pow2_52: "(2::real) ^ 52 = 2 powi 52"
  by simp

lemma rnd64_nearest:
  assumes "is_double d"
  shows "\<bar>rnd64 r - r\<bar> \<le> \<bar>d - r\<bar>"
proof (cases "r = 0")
  case True
  then show ?thesis by (simp add: rnd64_def)
next
  case False
  from assms obtain m e where d: "d = of_int m * 2 powi e" and m: "\<bar>m\<bar> < 2 ^ 53"
    and e: "- 1074 \<le> e"
    by (auto simp add: is_double_def)
  define eq where "eq = max (ilog2 r - 52) (- 1074)"
  have q: "quantum r = 2 powi eq" by (simp add: quantum_def eq_def)
  show ?thesis
  proof (cases "eq \<le> e")
    case True
    have "(2::real) powi e = 2 powi (e - eq) * 2 powi eq"
      by (simp flip: power_int_add)
    also have "(2::real) powi (e - eq) = 2 ^ nat (e - eq)"
      using True by (simp add: power_int_def)
    finally have "d = of_int (m * 2 ^ nat (e - eq)) * quantum r"
      by (simp add: d q)
    then show ?thesis
      using rnd64_nearest_multiple [of r "m * 2 ^ nat (e - eq)"] by simp
  next
    case lt: False
    then have eq52: "eq = ilog2 r - 52" using e by (simp add: eq_def max_def split: if_splits)
    have "(of_int \<bar>m\<bar> :: real) < 2 ^ 53"
      using m by (metis of_int_less_iff of_int_numeral of_int_power)
    then have "\<bar>d\<bar> < 2 ^ 53 * 2 powi e"
      by (simp add: d abs_mult power_int_abs)
    also have "(2::real) powi e \<le> 2 powi (eq - 1)"
      using lt by (intro power_int_increasing) simp_all
    then have "(2::real) ^ 53 * 2 powi e \<le> 2 ^ 53 * 2 powi (eq - 1)" by simp
    also have "(2::real) ^ 53 * 2 powi (eq - 1) = 2 powi (53 + (eq - 1))"
      unfolding pow2_53 by (rule pow2_add)
    also have "53 + (eq - 1) = ilog2 r" using eq52 by simp
    finally have dlt: "\<bar>d\<bar> < 2 powi (ilog2 r)" .
    have lo: "2 powi (ilog2 r) \<le> \<bar>r\<bar>" by (rule ilog2_bounds (1) [OF False])
    have "52 + eq = ilog2 r" using eq52 by simp
    then have "(2::real) ^ 52 * 2 powi eq = 2 powi (ilog2 r)"
      unfolding pow2_52 pow2_add by simp
    then have p: "of_int (2 ^ 52) * quantum r = 2 powi (ilog2 r)"
      "of_int (- (2 ^ 52)) * quantum r = - (2 powi (ilog2 r))"
      unfolding q by simp_all
    have "\<bar>rnd64 r - r\<bar> \<le> \<bar>(if 0 < r then 1 else - 1) * 2 powi (ilog2 r) - r\<bar>"
      using rnd64_nearest_multiple [of r "2 ^ 52"] rnd64_nearest_multiple [of r "- (2 ^ 52)"]
      unfolding p by simp
    also have "\<dots> = \<bar>r\<bar> - 2 powi (ilog2 r)"
      using lo False by (auto simp add: abs_if split: if_splits)
    also have "\<dots> \<le> \<bar>d - r\<bar>"
      using dlt by linarith
    finally show ?thesis .
  qed
qed

lemma rnd64_is_double_id: "is_double d \<Longrightarrow> rnd64 d = d"
  using rnd64_nearest [of d d] by simp

lemma rnd64_le_double: "is_double d \<Longrightarrow> r \<le> d \<Longrightarrow> rnd64 r \<le> d"
  using rnd64_nearest [of d r] by linarith

lemma rnd64_ge_double: "is_double d \<Longrightarrow> d \<le> r \<Longrightarrow> d \<le> rnd64 r"
  using rnd64_nearest [of d r] by linarith

lemma is_double_0: "is_double 0"
  unfolding is_double_def by (rule exI [of _ 0], rule exI [of _ 0]) simp

lemma rnd64_le_twice: "0 \<le> r \<Longrightarrow> rnd64 r \<le> 2 * r"
  using rnd64_nearest [OF is_double_0, of r] by linarith

lemma rnd64_ge_twice: "r \<le> 0 \<Longrightarrow> 2 * r \<le> rnd64 r"
  using rnd64_nearest [OF is_double_0, of r] by linarith

lemma rnd64_nonpos: "r \<le> 0 \<Longrightarrow> rnd64 r \<le> 0"
  using rnd64_le_double [OF is_double_0] .

lemma ilog2_unique:
  assumes "2 powi e \<le> \<bar>r\<bar>" and "\<bar>r\<bar> < 2 powi (e + 1)"
  shows "ilog2 r = e"
proof -
  have r: "r \<noteq> 0"
  proof
    assume "r = 0"
    with assms(1) have "(2::real) powi e \<le> 0" by simp
    moreover have "(0::real) < 2 powi e" by simp
    ultimately show False by linarith
  qed
  have "2 powi (ilog2 r) < (2::real) powi (e + 1)"
    using ilog2_bounds(1) [OF r] assms(2) by linarith
  have "ilog2 r < e + 1"
  proof (rule ccontr)
    assume "\<not> ilog2 r < e + 1"
    then have "e + 1 \<le> ilog2 r" by simp
    then have "(2::real) powi (e + 1) \<le> 2 powi (ilog2 r)"
      by (rule power_int_increasing) simp
    with \<open>2 powi (ilog2 r) < (2::real) powi (e + 1)\<close> show False by linarith
  qed
  moreover have "2 powi e < (2::real) powi (ilog2 r + 1)"
    using ilog2_bounds(2) [OF r] assms(1) by linarith
  moreover  have "e < ilog2 r + 1"
  proof (rule ccontr)
    assume "\<not> e < ilog2 r + 1"
    then have "ilog2 r + 1 \<le> e" by simp
    then have "(2::real) powi (ilog2 r + 1) \<le> 2 powi e"
      by (rule power_int_increasing) simp
    with \<open>2 powi e < (2::real) powi (ilog2 r + 1)\<close> show False by linarith
  qed
  ultimately show ?thesis by linarith
qed

lemma rnd64_binade:
  assumes "2 powi e \<le> \<bar>r\<bar>" and "\<bar>r\<bar> < 2 powi (e + 1)" and "- 1022 \<le> e"
  shows "rnd64 r = of_int (round_half_even (r / 2 powi (e - 52))) * 2 powi (e - 52)"
proof -
  have r: "r \<noteq> 0"
  proof
    assume "r = 0"
    with assms(1) have "(2::real) powi e \<le> 0" by simp
    moreover have "(0::real) < 2 powi e" by simp
    ultimately show False by linarith
  qed
  have "max (e - 52) (- 1074) = e - 52"
    using assms(3) by simp
  then have "quantum r = 2 powi (e - 52)"
    by (simp only: quantum_def ilog2_unique [OF assms(1,2)])
  then show ?thesis using r by (simp add: rnd64_def)
qed

lemma is_double_of_int: "\<bar>m\<bar> < 2 ^ 53 \<Longrightarrow> is_double (of_int m)"
  unfolding is_double_def by (rule exI [of _ m], rule exI [of _ 0]) simp

lemma is_double_dyadic:
  assumes "\<bar>m\<bar> < 2 ^ 53" and "k \<le> 1074"
  shows "is_double (of_int m / 2 ^ k)"
proof -
  have "(2::real) powi (- int k) = 1 / 2 ^ k"
    by (simp add: power_int_minus_divide)
  then have "(of_int m :: real) / 2 ^ k = of_int m * 2 powi (- int k)" by simp
  with assms show ?thesis
    unfolding is_double_def by (intro exI [of _ m] exI [of _ "- int k"]) simp
qed

lemma smod_nonneg: "0 \<le> a \<Longrightarrow> 0 < b \<Longrightarrow> (a::int) smod b = a mod b"
  by (simp add: signed_modulo_int_def sgn_if)


lemma rnd64_eval:
  assumes "2 powi e \<le> \<bar>r\<bar>" and "\<bar>r\<bar> < 2 powi (e + 1)" and "- 1022 \<le> e"
    and "round_half_even (r / 2 powi (e - 52)) = n"
  shows "rnd64 r = of_int n * 2 powi (e - 52)"
  using rnd64_binade [OF assms(1,2,3)] assms(4) by simp

subsection \<open>Property reads\<close>

lemma prop_of_update [simp]:
  "prop_of (obj(k \<mapsto> v)) k = Own v"
  "q \<noteq> k \<Longrightarrow> prop_of (obj(k \<mapsto> v)) q = prop_of obj q"
  by (simp_all add: prop_of_def)

lemma prop_of_iff:
  "(prop_of obj k = Own v) = (obj k = Some v)"
  "(prop_of obj k = Missing) = (obj k = None \<and> k \<notin> set objectPrototype)"
  "(prop_of obj k = Inherited) = (obj k = None \<and> k \<in> set objectPrototype)"
  by (simp_all add: prop_of_def split: option.splits)

lemma prop_of_Some [simp]: "obj k = Some v \<Longrightarrow> prop_of obj k = Own v"
  by (simp add: prop_of_def)

lemma prop_of_plain [simp]:
  "obj k = None \<Longrightarrow> k \<notin> set objectPrototype \<Longrightarrow> prop_of obj k = Missing"
  by (simp add: prop_of_def)

lemma prop_of_inherited [simp]:
  "obj k = None \<Longrightarrow> k \<in> set objectPrototype \<Longrightarrow> prop_of obj k = Inherited"
  by (simp add: prop_of_def)

subsection \<open>What a handler leaves alone\<close>

lemma updatePlayerInterpolation_shape:
  "\<exists>pos tgt. state_of (updatePlayerInterpolation d s) =
     s\<lparr>playerPositions := pos, playerTargets := tgt\<rparr>"
  by (cases "interpolateAll (map fst (players s)) (players s) (playerPositions s, playerTargets s)")
    (auto simp add: updatePlayerInterpolation_def split: prod.splits)

lemma updateCameraSmooth_Returned:
  assumes "myPlayer s = Some me"
    and "prop_of (playerPositions s) (key_of (playerId s)) \<noteq> Inherited"
  shows "\<exists>cam. updateCameraSmooth s = Returned (s\<lparr>camera := cam\<rparr>)"
  unfolding updateCameraSmooth_def assms(1) option.case if_not_P [OF assms(2)] Let_def
  by (rule exI) (rule refl)

lemma updateCameraSmooth_shape:
  "\<exists>cam. state_of (updateCameraSmooth s) = s\<lparr>camera := cam\<rparr>"
proof (cases "myPlayer s")
  case None
  then have "state_of (updateCameraSmooth s) = s\<lparr>camera := camera s\<rparr>"
    by (simp add: updateCameraSmooth_def)
  then show ?thesis ..
next
  case (Some me)
  show ?thesis
  proof (cases "prop_of (playerPositions s) (key_of (playerId s)) = Inherited")
    case True
    then have "updateCameraSmooth s = Beyond s"
      unfolding updateCameraSmooth_def Some option.case by (rule if_P)
    then have "state_of (updateCameraSmooth s) = s\<lparr>camera := camera s\<rparr>"
      by simp
    then show ?thesis ..
  next
    case False
    with Some obtain cam where "updateCameraSmooth s = Returned (s\<lparr>camera := cam\<rparr>)"
      using updateCameraSmooth_Returned by blast
    then have "state_of (updateCameraSmooth s) = s\<lparr>camera := cam\<rparr>" by simp
    then show ?thesis ..
  qed
qed

lemma render_shape:
  "\<exists>lt tm pos tgt cam. state_of (render t s) =
     s\<lparr>lastFrameTime := lt, animationTimer := tm, playerPositions := pos,
       playerTargets := tgt, camera := cam\<rparr>"
proof -
  define s1 where "s1 = s\<lparr>lastFrameTime := t,
      animationTimer := jadd (animationTimer s) (jsub t (lastFrameTime s))\<rparr>"
  define d where "d = jsub t (lastFrameTime s)"
  obtain pos tgt where u: "state_of (updatePlayerInterpolation d s1) =
      s1\<lparr>playerPositions := pos, playerTargets := tgt\<rparr>"
    using updatePlayerInterpolation_shape by blast
  show ?thesis
  proof (cases "worldImage s")
    case False
    then have "state_of (render t s) = s\<lparr>lastFrameTime := t,
        animationTimer := jadd (animationTimer s) (jsub t (lastFrameTime s)),
        playerPositions := playerPositions s, playerTargets := playerTargets s,
        camera := camera s\<rparr>"
      by (simp add: render_def Let_def)
    then show ?thesis by blast
  next
    case True
    show ?thesis
    proof (cases "updatePlayerInterpolation d s1")
      case (Threw s2)
      with u have "s2 = s1\<lparr>playerPositions := pos, playerTargets := tgt\<rparr>" by simp
      with Threw True have "state_of (render t s) = s\<lparr>lastFrameTime := t,
        animationTimer := jadd (animationTimer s) (jsub t (lastFrameTime s)),
        playerPositions := pos, playerTargets := tgt, camera := camera s\<rparr>"
        by (simp add: render_def Let_def and_then_def s1_def d_def)
      then show ?thesis by blast
    next
      case (Beyond s2)
      with u have "s2 = s1\<lparr>playerPositions := pos, playerTargets := tgt\<rparr>" by simp
      with Beyond True have "state_of (render t s) = s\<lparr>lastFrameTime := t,
        animationTimer := jadd (animationTimer s) (jsub t (lastFrameTime s)),
        playerPositions := pos, playerTargets := tgt, camera := camera s\<rparr>"
        by (simp add: render_def Let_def and_then_def s1_def d_def)
      then show ?thesis by blast
    next
      case (Returned s2)
      with u have s2: "s2 = s1\<lparr>playerPositions := pos, playerTargets := tgt\<rparr>" by simp
      obtain cam where "state_of (updateCameraSmooth s2) = s2\<lparr>camera := cam\<rparr>"
        using updateCameraSmooth_shape by blast
      with Returned True s2 have "state_of (render t s) = s\<lparr>lastFrameTime := t,
        animationTimer := jadd (animationTimer s) (jsub t (lastFrameTime s)),
        playerPositions := pos, playerTargets := tgt, camera := cam\<rparr>"
        by (simp add: render_def Let_def and_then_def s1_def d_def)
      then show ?thesis by blast
    qed
  qed
qed

lemma players_render [simp]: "players (state_of (render t s)) = players s"
  using render_shape [of t s] by auto

subsection \<open>Interpolation records\<close>

lemma interpolatePlayer_other:
  "q \<noteq> pid \<Longrightarrow>
   fst (state_of (interpolatePlayer pid player pt)) q = fst pt q
   \<and> snd (state_of (interpolatePlayer pid player pt)) q = snd pt q"
  by (cases pt) (auto simp add: interpolatePlayer_def Let_def split: slot.splits)

lemma interpolatePlayer_keeps:
  "(fst pt q \<noteq> None \<longrightarrow> fst (state_of (interpolatePlayer pid player pt)) q \<noteq> None)
   \<and> (snd pt q \<noteq> None \<longrightarrow> snd (state_of (interpolatePlayer pid player pt)) q \<noteq> None)"
  by (cases pt) (auto simp add: interpolatePlayer_def Let_def split: slot.splits)

lemma interpolatePlayer_returns:
  assumes "dom (fst pt) \<subseteq> dom (snd pt)" and "pid \<notin> set objectPrototype"
  shows "\<exists>pt1. interpolatePlayer pid player pt = Returned pt1
           \<and> fst pt1 pid \<noteq> None \<and> snd pt1 pid \<noteq> None
           \<and> dom (fst pt1) \<subseteq> dom (snd pt1)"
proof (cases pt)
  case (Pair pos tgt)
  show ?thesis
  proof (cases "pos pid")
    case None
    with Pair assms show ?thesis
      by (auto simp add: interpolatePlayer_def Let_def)
  next
    case (Some c)
    with Pair assms obtain t where t: "tgt pid = Some t" by auto
    from Some have m: "prop_of pos pid \<noteq> Missing" by simp
    from Some t Pair assms(1) show ?thesis
      by (auto simp add: interpolatePlayer_def Let_def m)
  qed
qed

lemma interpolateAll_other:
  "q \<notin> set ks \<Longrightarrow>
   fst (state_of (interpolateAll ks ps pt)) q = fst pt q
   \<and> snd (state_of (interpolateAll ks ps pt)) q = snd pt q"
proof (induction ks arbitrary: pt)
  case Nil
  then show ?case by simp
next
  case (Cons k ks)
  then have q: "q \<noteq> k" "q \<notin> set ks" by simp_all
  show ?case
  proof (cases "map_of ps k")
    case None
    then show ?thesis by simp
  next
    case (Some player)
    show ?thesis
    proof (cases "interpolatePlayer k player pt")
      case (Returned pt1)
      with Some Cons.IH [OF q(2), of pt1] interpolatePlayer_other [OF q(1), of player pt]
      show ?thesis by (simp add: and_then_def)
    next
      case (Threw pt1)
      with Some interpolatePlayer_other [OF q(1), of player pt]
      show ?thesis by (simp add: and_then_def)
    next
      case (Beyond pt1)
      with Some interpolatePlayer_other [OF q(1), of player pt]
      show ?thesis by (simp add: and_then_def)
    qed
  qed
qed

lemma interpolateAll_keeps:
  "(fst pt q \<noteq> None \<longrightarrow> fst (state_of (interpolateAll ks ps pt)) q \<noteq> None)
   \<and> (snd pt q \<noteq> None \<longrightarrow> snd (state_of (interpolateAll ks ps pt)) q \<noteq> None)"
proof (induction ks arbitrary: pt)
  case Nil
  then show ?case by simp
next
  case (Cons k ks)
  show ?case
  proof (cases "map_of ps k")
    case None
    then show ?thesis by simp
  next
    case (Some player)
    show ?thesis
    proof (cases "interpolatePlayer k player pt")
      case (Returned pt1)
      with Some Cons.IH [of pt1] interpolatePlayer_keeps [of pt q k player]
      show ?thesis by (simp add: and_then_def)
    next
      case (Threw pt1)
      with Some interpolatePlayer_keeps [of pt q k player]
      show ?thesis by (simp add: and_then_def)
    next
      case (Beyond pt1)
      with Some interpolatePlayer_keeps [of pt q k player]
      show ?thesis by (simp add: and_then_def)
    qed
  qed
qed

lemma interpolateAll_returns:
  assumes "dom (fst pt) \<subseteq> dom (snd pt)" and "set ks \<subseteq> dom (map_of ps)"
    and "set ks \<inter> set objectPrototype = {}"
  shows "\<exists>pt1. interpolateAll ks ps pt = Returned pt1
           \<and> (\<forall>k \<in> set ks. fst pt1 k \<noteq> None \<and> snd pt1 k \<noteq> None)
           \<and> dom (fst pt1) \<subseteq> dom (snd pt1)"
  using assms
proof (induction ks arbitrary: pt)
  case Nil
  then show ?case by simp
next
  case (Cons k ks)
  then obtain player where p: "map_of ps k = Some player" by auto
  from Cons.prems(3) have plain: "k \<notin> set objectPrototype" "set ks \<inter> set objectPrototype = {}"
    by auto
  from interpolatePlayer_returns [OF Cons.prems(1) plain(1), of player]
  obtain pt1 where 1: "interpolatePlayer k player pt = Returned pt1"
    and k: "fst pt1 k \<noteq> None" "snd pt1 k \<noteq> None" and d: "dom (fst pt1) \<subseteq> dom (snd pt1)"
    by blast
  from Cons.prems(2) have "set ks \<subseteq> dom (map_of ps)" by simp
  from Cons.IH [OF d this plain(2)]
  obtain pt2 where 2: "interpolateAll ks ps pt1 = Returned pt2"
    and ks: "\<forall>k \<in> set ks. fst pt2 k \<noteq> None \<and> snd pt2 k \<noteq> None"
    and d2: "dom (fst pt2) \<subseteq> dom (snd pt2)"
    by blast
  have "fst pt2 k \<noteq> None \<and> snd pt2 k \<noteq> None"
    using interpolateAll_keeps [of pt1 k ks ps] k 2 by simp
  with p 1 2 ks d2 show ?case
    by (simp add: and_then_def)
qed

lemma updateCameraSmooth_fields [simp]:
  "players (state_of (updateCameraSmooth s)) = players s"
  "playerPositions (state_of (updateCameraSmooth s)) = playerPositions s"
  "playerTargets (state_of (updateCameraSmooth s)) = playerTargets s"
  using updateCameraSmooth_shape [of s] by auto

lemma render_fields [simp]:
  "canvasWidth (state_of (render t s)) = canvasWidth s"
  "canvasHeight (state_of (render t s)) = canvasHeight s"
  "worldImage (state_of (render t s)) = worldImage s"
  "socket (state_of (render t s)) = socket s"
  "isConnected (state_of (render t s)) = isConnected s"
  "playerId (state_of (render t s)) = playerId s"
  "avatars (state_of (render t s)) = avatars s"
  "myPlayer (state_of (render t s)) = myPlayer s"
  "keysPressed (state_of (render t s)) = keysPressed s"
  "movementInterval (state_of (render t s)) = movementInterval s"
  "showMinimap (state_of (render t s)) = showMinimap s"
  "zoomLevel (state_of (render t s)) = zoomLevel s"
  "sent (state_of (render t s)) = sent s"
  "intervals (state_of (render t s)) = intervals s"
  "timeouts (state_of (render t s)) = timeouts s"
  "liveSockets (state_of (render t s)) = liveSockets s"
  "openSockets (state_of (render t s)) = openSockets s"
  "nextHandle (state_of (render t s)) = nextHandle s"
  "nextSocket (state_of (render t s)) = nextSocket s"
  "animationLoop (state_of (render t s)) = animationLoop s"
  using render_shape [of t s] by auto

lemma render_interp:
  "playerPositions (state_of (render t s)) =
     (if worldImage s
      then fst (state_of (interpolateAll (map fst (players s)) (players s)
                  (playerPositions s, playerTargets s)))
      else playerPositions s)"
  "playerTargets (state_of (render t s)) =
     (if worldImage s
      then snd (state_of (interpolateAll (map fst (players s)) (players s)
                  (playerPositions s, playerTargets s)))
      else playerTargets s)"
  by (cases "interpolateAll (map fst (players s)) (players s) (playerPositions s, playerTargets s)";
      simp add: render_def Let_def updatePlayerInterpolation_def and_then_def
        split: prod.splits)+

lemma render_keeps:
  "playerPositions s q \<noteq> None \<Longrightarrow> playerPositions (state_of (render t s)) q \<noteq> None"
  "playerTargets s q \<noteq> None \<Longrightarrow> playerTargets (state_of (render t s)) q \<noteq> None"
  using interpolateAll_keeps [of "(playerPositions s, playerTargets s)" q
      "map fst (players s)" "players s"]
  by (simp_all add: render_interp)

lemma render_other:
  assumes "map_of (players s) q = None"
  shows "playerPositions (state_of (render t s)) q = playerPositions s q"
    and "playerTargets (state_of (render t s)) q = playerTargets s q"
proof -
  from assms have "q \<notin> set (map fst (players s))"
    by (simp add: map_of_eq_None_iff)
  from interpolateAll_other [OF this, of "players s" "(playerPositions s, playerTargets s)"]
  show "playerPositions (state_of (render t s)) q = playerPositions s q"
    and "playerTargets (state_of (render t s)) q = playerTargets s q"
    by (simp_all add: render_interp)
qed

lemma updateCameraSmooth_returns:
  assumes "key_of (playerId s) \<notin> set objectPrototype"
  shows "\<exists>cam. updateCameraSmooth s = Returned (s\<lparr>camera := cam\<rparr>)"
proof (cases "myPlayer s")
  case None
  then have "updateCameraSmooth s = Returned (s\<lparr>camera := camera s\<rparr>)"
    by (simp add: updateCameraSmooth_def)
  then show ?thesis ..
next
  case (Some me)
  from assms have "prop_of (playerPositions s) (key_of (playerId s)) \<noteq> Inherited"
    by (simp add: prop_of_iff)
  with Some show ?thesis by (rule updateCameraSmooth_Returned)
qed

lemma render_returns:
  assumes "dom (playerPositions s) \<subseteq> dom (playerTargets s)"
    and "set (map fst (players s)) \<inter> set objectPrototype = {}"
    and "key_of (playerId s) \<notin> set objectPrototype"
  shows "\<exists>s1. render t s = Returned s1
          \<and> dom (playerPositions s1) \<subseteq> dom (playerTargets s1)
          \<and> (worldImage s \<longrightarrow>
               (\<forall>k \<in> set (map fst (players s)).
                  playerPositions s1 k \<noteq> None \<and> playerTargets s1 k \<noteq> None))"
proof (cases "worldImage s")
  case False
  with assms show ?thesis by (simp add: render_def Let_def)
next
  case True
  have "set (map fst (players s)) \<subseteq> dom (map_of (players s))"
    by (simp add: dom_map_of_conv_image_fst)
  with assms(1,2) interpolateAll_returns [of "(playerPositions s, playerTargets s)"
      "map fst (players s)" "players s"]
  obtain pt1 where i: "interpolateAll (map fst (players s)) (players s)
         (playerPositions s, playerTargets s) = Returned pt1"
    and k: "\<forall>k \<in> set (map fst (players s)). fst pt1 k \<noteq> None \<and> snd pt1 k \<noteq> None"
    and d: "dom (fst pt1) \<subseteq> dom (snd pt1)"
    by auto
  define s2 where "s2 = s\<lparr>lastFrameTime := t,
      animationTimer := jadd (animationTimer s) (jsub t (lastFrameTime s)),
      playerPositions := fst pt1, playerTargets := snd pt1\<rparr>"
  have "key_of (playerId s2) \<notin> set objectPrototype"
    using assms(3) by (simp add: s2_def)
  then obtain cam where c: "updateCameraSmooth s2 = Returned (s2\<lparr>camera := cam\<rparr>)"
    using updateCameraSmooth_returns by blast
  from True i have "render t s = updateCameraSmooth s2"
    by (cases pt1) (simp add: render_def Let_def updatePlayerInterpolation_def and_then_def
        s2_def)
  with c have "render t s = Returned (s2\<lparr>camera := cam\<rparr>)" by simp
  moreover have "playerPositions (s2\<lparr>camera := cam\<rparr>) = fst pt1"
    "playerTargets (s2\<lparr>camera := cam\<rparr>) = snd pt1"
    by (simp_all add: s2_def)
  ultimately show ?thesis using k d True by simp
qed

lemma render_clock:
  "lastFrameTime (state_of (render t s)) = t"
  "animationTimer (state_of (render t s)) = jadd (animationTimer s) (jsub t (lastFrameTime s))"
proof -
  define s1 where "s1 = s\<lparr>lastFrameTime := t,
      animationTimer := jadd (animationTimer s) (jsub t (lastFrameTime s))\<rparr>"
  define d where "d = jsub t (lastFrameTime s)"
  obtain pos tgt where u: "state_of (updatePlayerInterpolation d s1) =
      s1\<lparr>playerPositions := pos, playerTargets := tgt\<rparr>"
    using updatePlayerInterpolation_shape by blast
  have "lastFrameTime (state_of (render t s)) = t
      \<and> animationTimer (state_of (render t s)) = jadd (animationTimer s) (jsub t (lastFrameTime s))"
  proof (cases "worldImage s")
    case False
    then show ?thesis by (simp add: render_def Let_def)
  next
    case True
    show ?thesis
    proof (cases "updatePlayerInterpolation d s1")
      case (Returned s2)
      with u have s2: "s2 = s1\<lparr>playerPositions := pos, playerTargets := tgt\<rparr>" by simp
      obtain cam where "state_of (updateCameraSmooth s2) = s2\<lparr>camera := cam\<rparr>"
        using updateCameraSmooth_shape by blast
      with Returned True s2 show ?thesis
        by (simp add: render_def Let_def and_then_def s1_def d_def)
    next
      case (Threw s2)
      with u have "s2 = s1\<lparr>playerPositions := pos, playerTargets := tgt\<rparr>" by simp
      with Threw True show ?thesis
        by (simp add: render_def Let_def and_then_def s1_def d_def)
    next
      case (Beyond s2)
      with u have "s2 = s1\<lparr>playerPositions := pos, playerTargets := tgt\<rparr>" by simp
      with Beyond True show ?thesis
        by (simp add: render_def Let_def and_then_def s1_def d_def)
    qed
  qed
  then show "lastFrameTime (state_of (render t s)) = t"
    and "animationTimer (state_of (render t s)) = jadd (animationTimer s) (jsub t (lastFrameTime s))"
    by simp_all
qed

lemma frame_turn:
  assumes "animationLoop s" and "dom (playerPositions s) \<subseteq> dom (playerTargets s)"
    and "set (map fst (players s)) \<inter> set objectPrototype = {}"
    and "key_of (playerId s) \<notin> set objectPrototype"
  shows "fire (Frame t) s = Some (state_of (render t s))"
    and "settled (render t s) = Some (state_of (render t s))"
    and "dom (playerPositions (state_of (render t s))) \<subseteq> dom (playerTargets (state_of (render t s)))"
proof -
  from render_returns [OF assms(2,3,4), of t]
  obtain s1 where r: "render t s = Returned s1"
    and d: "dom (playerPositions s1) \<subseteq> dom (playerTargets s1)" by blast
  from r assms(1) show "fire (Frame t) s = Some (state_of (render t s))" by simp
  from r show "settled (render t s) = Some (state_of (render t s))" by simp
  from r d show "dom (playerPositions (state_of (render t s)))
      \<subseteq> dom (playerTargets (state_of (render t s)))" by simp
qed

subsection \<open>Partial move updates\<close>

lemma map_add_twice: "m ++ n ++ n = m ++ n"
  by (rule ext) (simp add: map_add_def split: option.splits)

lemma spread_idem: "spread (spread old u) u = spread old u"
  by (simp add: spread_def map_add_twice split: option.splits)

lemma keys_update_present: "map_of ps k = Some old \<Longrightarrow> map fst (AList.update k v ps) = map fst ps"
  by (simp add: update_keys map_of_eq_None_iff [symmetric] del: map_of_eq_None_iff)

lemma mergePlayers_plain:
  assumes "\<forall>k \<in> set ks. map_of ps k = None \<longrightarrow> k \<notin> set objectPrototype"
  shows "\<exists>ps1. mergePlayers ks upd ps = Returned ps1
          \<and> map fst ps1 = map fst ps
          \<and> (\<forall>pid. map_of ps1 pid =
                (if pid \<in> set ks
                 then (case map_of ps pid of
                         None \<Rightarrow> None
                       | Some old \<Rightarrow>
                           Some (case map_of upd pid of None \<Rightarrow> old | Some u \<Rightarrow> spread old u))
                 else map_of ps pid))"
  using assms
proof (induction ks arbitrary: ps)
  case Nil
  then show ?case by simp
next
  case (Cons k ks)
  from Cons.prems have rest: "\<forall>k \<in> set ks. map_of ps k = None \<longrightarrow> k \<notin> set objectPrototype"
    by simp
  show ?case
  proof (cases "map_of upd k")
    case None
    from Cons.IH [OF rest] obtain ps1 where 1: "mergePlayers ks upd ps = Returned ps1"
      "map fst ps1 = map fst ps"
      "\<forall>pid. map_of ps1 pid =
                (if pid \<in> set ks
                 then (case map_of ps pid of
                         None \<Rightarrow> None
                       | Some old \<Rightarrow>
                           Some (case map_of upd pid of None \<Rightarrow> old | Some u \<Rightarrow> spread old u))
                 else map_of ps pid)"
      by blast
    from None 1(1) have "mergePlayers (k # ks) upd ps = Returned ps1" by simp
    moreover from 1(3) None have "\<forall>pid. map_of ps1 pid =
                (if pid \<in> set (k # ks)
                 then (case map_of ps pid of
                         None \<Rightarrow> None
                       | Some old \<Rightarrow>
                           Some (case map_of upd pid of None \<Rightarrow> old | Some u \<Rightarrow> spread old u))
                 else map_of ps pid)"
      by (auto split: option.splits)
    ultimately show ?thesis using 1(2) by blast
  next
    case (Some u)
    show ?thesis
    proof (cases "map_of ps k")
      case None
      with Cons.prems have "k \<notin> set objectPrototype" by simp
      with None have m: "prop_of (map_of ps) k = Missing" by simp
      from Cons.IH [OF rest] obtain ps1 where 1: "mergePlayers ks upd ps = Returned ps1"
        "map fst ps1 = map fst ps"
        "\<forall>pid. map_of ps1 pid =
                (if pid \<in> set ks
                 then (case map_of ps pid of
                         None \<Rightarrow> None
                       | Some old \<Rightarrow>
                           Some (case map_of upd pid of None \<Rightarrow> old | Some u \<Rightarrow> spread old u))
                 else map_of ps pid)"
        by blast
      from Some m 1(1) have "mergePlayers (k # ks) upd ps = Returned ps1" by simp
      moreover from 1(3) None have "\<forall>pid. map_of ps1 pid =
                (if pid \<in> set (k # ks)
                 then (case map_of ps pid of
                         None \<Rightarrow> None
                       | Some old \<Rightarrow>
                           Some (case map_of upd pid of None \<Rightarrow> old | Some u \<Rightarrow> spread old u))
                 else map_of ps pid)"
        by (auto split: option.splits)
      ultimately show ?thesis using 1(2) by blast
    next
      case old: (Some old)
      define ps0 where "ps0 = AList.update k (spread old u) ps"
      have keys: "map fst ps0 = map fst ps"
        unfolding ps0_def using old by (rule keys_update_present)
      have look: "map_of ps0 pid = (if pid = k then Some (spread old u) else map_of ps pid)" for pid
        by (simp add: ps0_def update_conv')
      from rest look have "\<forall>k \<in> set ks. map_of ps0 k = None \<longrightarrow> k \<notin> set objectPrototype"
        by simp
      from Cons.IH [OF this] obtain ps1 where 1: "mergePlayers ks upd ps0 = Returned ps1"
        "map fst ps1 = map fst ps0"
        "\<forall>pid. map_of ps1 pid =
                (if pid \<in> set ks
                 then (case map_of ps0 pid of
                         None \<Rightarrow> None
                       | Some old \<Rightarrow>
                           Some (case map_of upd pid of None \<Rightarrow> old | Some u \<Rightarrow> spread old u))
                 else map_of ps0 pid)"
        by blast
      from old have "prop_of (map_of ps) k = Own old" by simp
      with Some 1(1) have "mergePlayers (k # ks) upd ps = Returned ps1"
        by (simp add: ps0_def)
      moreover from 1(3) look Some old have "\<forall>pid. map_of ps1 pid =
                (if pid \<in> set (k # ks)
                 then (case map_of ps pid of
                         None \<Rightarrow> None
                       | Some old \<Rightarrow>
                           Some (case map_of upd pid of None \<Rightarrow> old | Some u \<Rightarrow> spread old u))
                 else map_of ps pid)"
        by (auto simp add: spread_idem split: option.splits)
      ultimately show ?thesis using 1(2) keys by auto
    qed
  qed
qed

lemma players_handlePlayersMove:
  "players (state_of (handlePlayersMove upd s)) =
     state_of (mergePlayers (map fst upd) upd (players s))"
  by (cases "mergePlayers (map fst upd) upd (players s)")
    (simp_all add: handlePlayersMove_def and_then_def split: slot.splits)

lemma mergePlayers_inherited:
  assumes "pid \<in> set objectPrototype" and "pid \<noteq> ''__proto__''" and "map_of ps pid = None"
    and "entity_of u = Some created"
  shows "mergePlayers [pid] [(pid, u)] ps = Returned (AList.update pid created ps)"
proof -
  from assms(1,3) have "prop_of (map_of ps) pid = Inherited" by simp
  with assms(2,4) show ?thesis by simp
qed

lemma update_absent: "map_of ps k = None \<Longrightarrow> AList.update k v ps = ps @ [(k, v)]"
  by (induction ps) auto

text \<open>
  C1. The claim holds for every update in which no id that the store lacks is a property
  name of \<^verbatim>\<open>Object.prototype\<close>: the message leaves the ids of the store and their order as
  they are, an id of the update that the store does not hold stays absent, an entity the
  update does not name is unchanged, and an entity it names becomes the spread of the old
  record and the supplied properties, in which every coordinate and every named property
  the update supplies takes the supplied value and every other one keeps the value it
  had. It fails for the other ids: for an id such as \<^verbatim>\<open>constructor\<close> that the store does not
  hold, the test \<^verbatim>\<open>this.players[playerId]\<close> finds the inherited function, and the
  assignment adds an entity made of the update alone at the end of the store.
\<close>

theorem players_moved_merge:
  "((\<forall>k \<in> set (map fst upd). map_of (players s) k = None \<longrightarrow> k \<notin> set objectPrototype) \<longrightarrow>
      map fst (players (state_of (handlePlayersMove upd s))) = map fst (players s)
      \<and> map_of (players (state_of (handlePlayersMove upd s))) pid =
          (case map_of (players s) pid of
             None \<Rightarrow> None
           | Some old \<Rightarrow> Some (case map_of upd pid of None \<Rightarrow> old | Some u \<Rightarrow> spread old u)))
   \<and> vec_x (spread old u) = (case patch_x u of None \<Rightarrow> vec_x old | Some v \<Rightarrow> v)
   \<and> vec_y (spread old u) = (case patch_y u of None \<Rightarrow> vec_y old | Some v \<Rightarrow> v)
   \<and> props (spread old u) f = (case patch_props u f of None \<Rightarrow> props old f | Some v \<Rightarrow> Some v)
   \<and> (pid \<in> set objectPrototype \<and> pid \<noteq> ''__proto__'' \<and> map_of (players s) pid = None
        \<and> patch_x u = Some x \<and> patch_y u = Some y \<longrightarrow>
        players (state_of (handlePlayersMove [(pid, u)] s)) =
          players s @ [(pid, \<lparr>vec_x = x, vec_y = y, props = patch_props u\<rparr>)])"
proof (intro conjI impI)
  assume plain: "\<forall>k \<in> set (map fst upd). map_of (players s) k = None \<longrightarrow> k \<notin> set objectPrototype"
  from mergePlayers_plain [OF this, of upd]
  obtain ps1 where 1: "mergePlayers (map fst upd) upd (players s) = Returned ps1"
    "map fst ps1 = map fst (players s)"
    "\<forall>pid. map_of ps1 pid =
       (if pid \<in> set (map fst upd)
        then (case map_of (players s) pid of
                None \<Rightarrow> None
              | Some old \<Rightarrow> Some (case map_of upd pid of None \<Rightarrow> old | Some u \<Rightarrow> spread old u))
        else map_of (players s) pid)"
    by blast
  have p: "players (state_of (handlePlayersMove upd s)) = ps1"
    by (simp add: players_handlePlayersMove 1(1))
  show "map fst (players (state_of (handlePlayersMove upd s))) = map fst (players s)"
    by (simp only: p 1(2))
  have m: "map_of upd pid = None" if "pid \<notin> set (map fst upd)"
    using that by (simp add: map_of_eq_None_iff)
  show "map_of (players (state_of (handlePlayersMove upd s))) pid =
      (case map_of (players s) pid of
         None \<Rightarrow> None
       | Some old \<Rightarrow> Some (case map_of upd pid of None \<Rightarrow> old | Some u \<Rightarrow> spread old u))"
    unfolding p using 1(3) m by (auto split: option.splits)
next
  show "vec_x (spread old u) = (case patch_x u of None \<Rightarrow> vec_x old | Some v \<Rightarrow> v)"
    by (simp add: spread_def)
next
  show "vec_y (spread old u) = (case patch_y u of None \<Rightarrow> vec_y old | Some v \<Rightarrow> v)"
    by (simp add: spread_def)
next
  show "props (spread old u) f = (case patch_props u f of None \<Rightarrow> props old f | Some v \<Rightarrow> Some v)"
    by (simp add: spread_def map_add_def)
next
  assume a: "pid \<in> set objectPrototype \<and> pid \<noteq> ''__proto__'' \<and> map_of (players s) pid = None
        \<and> patch_x u = Some x \<and> patch_y u = Some y"
  then have "entity_of u = Some \<lparr>vec_x = x, vec_y = y, props = patch_props u\<rparr>"
    by (simp add: entity_of_def)
  with a have "mergePlayers [pid] [(pid, u)] (players s) =
      Returned (AList.update pid \<lparr>vec_x = x, vec_y = y, props = patch_props u\<rparr> (players s))"
    by (intro mergePlayers_inherited) simp_all
  moreover have "players (state_of (handlePlayersMove [(pid, u)] s)) =
      state_of (mergePlayers [pid] [(pid, u)] (players s))"
    using players_handlePlayersMove [of "[(pid, u)]" s] by simp
  ultimately show "players (state_of (handlePlayersMove [(pid, u)] s)) =
          players s @ [(pid, \<lparr>vec_x = x, vec_y = y, props = patch_props u\<rparr>)]"
    using a by (simp add: update_absent)
qed

theorem players_moved_merge_witness:
  "''p9'' \<notin> set objectPrototype
   \<and> map fst (players (state_of (handlePlayersMove [(''p1'', step_east), (''p9'', step_east)]
       (connected_client\<lparr>players := [(''p1'', alice), (''p7'', bob)]\<rparr>)))) = [''p1'', ''p7'']
   \<and> map_of (players (state_of (handlePlayersMove [(''p1'', step_east), (''p9'', step_east)]
       (connected_client\<lparr>players := [(''p1'', alice), (''p7'', bob)]\<rparr>)))) ''p9'' = None
   \<and> map_of (players (state_of (handlePlayersMove [(''p1'', step_east), (''p9'', step_east)]
       (connected_client\<lparr>players := [(''p1'', alice), (''p7'', bob)]\<rparr>)))) ''p7'' = Some bob
   \<and> map_of (players (state_of (handlePlayersMove [(''p1'', step_east), (''p9'', step_east)]
       (connected_client\<lparr>players := [(''p1'', alice), (''p7'', bob)]\<rparr>)))) ''p1'' =
       Some (spread alice step_east)
   \<and> vec_x (spread alice step_east) = 105
   \<and> vec_y (spread alice step_east) = 200
   \<and> props (spread alice step_east) ''username'' = Some (JStr ''alice'')
   \<and> props (spread alice step_east) ''isMoving'' = Some (JBool True)
   \<and> ''constructor'' \<in> set objectPrototype
   \<and> map_of (players (connected_client\<lparr>players := [(''p1'', alice), (''p7'', bob)]\<rparr>))
        ''constructor'' = None
   \<and> patch_x full_update = Some 640 \<and> patch_y full_update = Some 480
   \<and> players (state_of (handlePlayersMove [(''constructor'', full_update)]
        (connected_client\<lparr>players := [(''p1'', alice), (''p7'', bob)]\<rparr>))) =
       [(''p1'', alice), (''p7'', bob),
        (''constructor'', \<lparr>vec_x = 640, vec_y = 480, props = patch_props full_update\<rparr>)]"
proof -
  define s where "s = connected_client\<lparr>players := [(''p1'', alice), (''p7'', bob)]\<rparr>"
  define upd where "upd = [(''p1'', step_east), (''p9'', step_east)]"
  have h: "\<forall>k \<in> set (map fst upd). map_of (players s) k = None \<longrightarrow> k \<notin> set objectPrototype"
    by (simp add: upd_def s_def objectPrototype_def)
  have c: "''constructor'' \<in> set objectPrototype" "map_of (players s) ''constructor'' = None"
    "patch_x full_update = Some 640" "patch_y full_update = Some 480"
    by (simp_all add: objectPrototype_def s_def full_update_def)
  have k: "map fst (players s) = [''p1'', ''p7'']" "map_of (players s) ''p9'' = None"
    "map_of (players s) ''p7'' = Some bob" "map_of (players s) ''p1'' = Some alice"
    "map_of upd ''p7'' = None" "map_of upd ''p1'' = Some step_east"
    "players s = [(''p1'', alice), (''p7'', bob)]"
    by (simp_all add: s_def upd_def)
  have f: "vec_x (spread alice step_east) = 105" "vec_y (spread alice step_east) = 200"
    "props (spread alice step_east) ''username'' = Some (JStr ''alice'')"
    "props (spread alice step_east) ''isMoving'' = Some (JBool True)"
    using players_moved_merge [of upd s "''p9''" alice step_east "''username''" 0 0]
      players_moved_merge [of upd s "''p9''" alice step_east "''isMoving''" 0 0]
    by (simp_all add: alice_def step_east_def)
  have a: "map fst (players (state_of (handlePlayersMove upd s))) = [''p1'', ''p7'']"
    "map_of (players (state_of (handlePlayersMove upd s))) ''p9'' = None"
    using players_moved_merge [of upd s "''p9''" alice step_east "''username''" 0 0] h k
    by simp_all
  have b: "map_of (players (state_of (handlePlayersMove upd s))) ''p7'' = Some bob"
    using players_moved_merge [of upd s "''p7''" alice step_east "''username''" 0 0] h k
    by simp
  have d: "map_of (players (state_of (handlePlayersMove upd s))) ''p1'' =
      Some (spread alice step_east)"
    using players_moved_merge [of upd s "''p1''" alice step_east "''username''" 0 0] h k
    by simp
  have e: "players (state_of (handlePlayersMove [(''constructor'', full_update)] s)) =
       [(''p1'', alice), (''p7'', bob),
        (''constructor'', \<lparr>vec_x = 640, vec_y = 480, props = patch_props full_update\<rparr>)]"
    using players_moved_merge [of "[]" s "''constructor''" alice full_update "''username''" 640 480]
      c k(7)
    by simp
  have n: "''p9'' \<notin> set objectPrototype"
    by (simp add: objectPrototype_def)
  from n c f a b d e show ?thesis
    unfolding s_def upd_def by blast
qed
subsection \<open>Keyboard movement\<close>

lemma sendFirstActive_keyPriority:
  "sendFirstActive keyPriority s =
     (if keysPressed s ArrowUp then sendMoveCommand ArrowUp s
      else if keysPressed s ArrowDown then sendMoveCommand ArrowDown s
      else if keysPressed s ArrowLeft then sendMoveCommand ArrowLeft s
      else if keysPressed s ArrowRight then sendMoveCommand ArrowRight s
      else Returned s)"
  by (simp add: keyPriority_def)

lemma socket_send_open:
  "socket s = Some k \<Longrightarrow> k \<in> set (openSockets s) \<Longrightarrow>
   socket_send m s = Returned (s\<lparr>sent := sent s @ [(k, m)]\<rparr>)"
  by (simp add: socket_send_def)

lemma sendMoveCommand_connected:
  "isConnected s \<Longrightarrow> socket s = Some k \<Longrightarrow> k \<in> set (openSockets s) \<Longrightarrow>
   sendMoveCommand key s = Returned (s\<lparr>sent := sent s @ [(k, MoveDir (keyToDirection key))]\<rparr>)"
  by (cases key) (simp_all add: sendMoveCommand_def socket_send_open)

lemma emission_connected:
  assumes "isConnected s" and "socket s = Some k" and "k \<in> set (openSockets s)"
    and "keysPressed s ArrowUp \<or> keysPressed s ArrowDown \<or> keysPressed s ArrowLeft
         \<or> keysPressed s ArrowRight"
  shows "sendMoveCommandForActiveKeys s =
           Returned (s\<lparr>sent := sent s @
             [(k, MoveDir (if keysPressed s ArrowUp then ''up''
                           else if keysPressed s ArrowDown then ''down''
                           else if keysPressed s ArrowLeft then ''left''
                           else ''right''))]\<rparr>)"
  using assms
  by (auto simp add: sendMoveCommandForActiveKeys_def sendFirstActive_keyPriority
      sendMoveCommand_connected)

lemma arrow_of_simps [simp]:
  "arrow_of ''ArrowUp'' = Some ArrowUp"
  "arrow_of ''ArrowDown'' = Some ArrowDown"
  "arrow_of ''ArrowLeft'' = Some ArrowLeft"
  "arrow_of ''ArrowRight'' = Some ArrowRight"
  by (simp_all add: arrow_of_def)

lemma anyKeyPressed_iff:
  "anyKeyPressed s \<longleftrightarrow> (\<exists>key. keysPressed s key)"
proof
  assume "anyKeyPressed s" then show "\<exists>key. keysPressed s key"
    by (auto simp add: anyKeyPressed_def)
next
  assume "\<exists>key. keysPressed s key"
  then obtain key where "keysPressed s key" ..
  then show "anyKeyPressed s"
    by (cases key) (simp_all add: anyKeyPressed_def)
qed

lemma connected_client_fields [simp]:
  "isConnected connected_client" "socket connected_client = Some 0"
  "openSockets connected_client = [0]" "keysPressed connected_client = (\<lambda>key. False)"
  "movementInterval connected_client = None" "myPlayer connected_client = None"
  "sent connected_client = [(0, JoinGame ''Mike'')]"
  by (simp_all add: connected_client_def new_client_def connectToServer_def)

lemma holding_up_left_fields [simp]:
  "isConnected holding_up_left" "socket holding_up_left = Some 0"
  "openSockets holding_up_left = [0]"
  "keysPressed holding_up_left = (\<lambda>key. False)(ArrowUp := True, ArrowLeft := True)"
  "sent holding_up_left = [(0, JoinGame ''Mike''), (0, MoveDir ''up'')]"
  by (simp_all add: holding_up_left_def)

text \<open>
  C6. While the session is connected (its socket open) and at least one arrow key is
  held, one emission of \<^verbatim>\<open>sendMoveCommandForActiveKeys\<close>, which is what the key-down
  handler and every tick of the interval run, sends exactly one message: the move in the
  direction of the first held key in the order Up, Down, Left, Right. With Up and Left
  held (and Down not), it sends \<^verbatim>\<open>up\<close>; the key-up of Up then sends nothing and only
  clears the key, and the next emission sends \<^verbatim>\<open>left\<close>.
\<close>

theorem key_priority:
  assumes "isConnected s" and "socket s = Some k" and "k \<in> set (openSockets s)"
  shows "(keysPressed s ArrowUp \<or> keysPressed s ArrowDown \<or> keysPressed s ArrowLeft
            \<or> keysPressed s ArrowRight \<longrightarrow>
          sendMoveCommandForActiveKeys s =
            Returned (s\<lparr>sent := sent s @
              [(k, MoveDir (if keysPressed s ArrowUp then ''up''
                            else if keysPressed s ArrowDown then ''down''
                            else if keysPressed s ArrowLeft then ''left''
                            else ''right''))]\<rparr>))
       \<and> (keysPressed s ArrowUp \<and> keysPressed s ArrowLeft \<and> \<not> keysPressed s ArrowDown \<longrightarrow>
          sendMoveCommandForActiveKeys s = Returned (s\<lparr>sent := sent s @ [(k, MoveDir ''up'')]\<rparr>)
          \<and> (let s1 = s\<lparr>keysPressed := (keysPressed s)(ArrowUp := False)\<rparr>
             in handleKeyUp ''ArrowUp'' s = Returned s1
              \<and> sendMoveCommandForActiveKeys s1 =
                  Returned (s1\<lparr>sent := sent s @ [(k, MoveDir ''left'')]\<rparr>)))"
proof (intro conjI impI)
  assume "keysPressed s ArrowUp \<or> keysPressed s ArrowDown \<or> keysPressed s ArrowLeft
            \<or> keysPressed s ArrowRight"
  with assms show "sendMoveCommandForActiveKeys s =
            Returned (s\<lparr>sent := sent s @
              [(k, MoveDir (if keysPressed s ArrowUp then ''up''
                            else if keysPressed s ArrowDown then ''down''
                            else if keysPressed s ArrowLeft then ''left''
                            else ''right''))]\<rparr>)"
    by (rule emission_connected)
next
  assume h: "keysPressed s ArrowUp \<and> keysPressed s ArrowLeft \<and> \<not> keysPressed s ArrowDown"
  with assms show
    "sendMoveCommandForActiveKeys s = Returned (s\<lparr>sent := sent s @ [(k, MoveDir ''up'')]\<rparr>)"
    by (simp add: emission_connected)
  define s1 where "s1 = s\<lparr>keysPressed := (keysPressed s)(ArrowUp := False)\<rparr>"
  have any: "anyKeyPressed s1"
    unfolding anyKeyPressed_iff using h by (auto simp add: s1_def intro: exI [of _ ArrowLeft])
  have up: "handleKeyUp ''ArrowUp'' s = Returned s1"
    using any by (simp add: handleKeyUp_def Let_def s1_def)
  have "isConnected s1" "socket s1 = Some k" "k \<in> set (openSockets s1)"
    using assms by (simp_all add: s1_def)
  moreover have "keysPressed s1 ArrowLeft" "\<not> keysPressed s1 ArrowUp" "\<not> keysPressed s1 ArrowDown"
    using h by (simp_all add: s1_def)
  ultimately have "sendMoveCommandForActiveKeys s1 =
      Returned (s1\<lparr>sent := sent s1 @ [(k, MoveDir ''left'')]\<rparr>)"
    by (simp add: emission_connected)
  then have "sendMoveCommandForActiveKeys s1 =
      Returned (s1\<lparr>sent := sent s @ [(k, MoveDir ''left'')]\<rparr>)"
    by (simp add: s1_def)
  with up show "let s1 = s\<lparr>keysPressed := (keysPressed s)(ArrowUp := False)\<rparr>
             in handleKeyUp ''ArrowUp'' s = Returned s1
              \<and> sendMoveCommandForActiveKeys s1 =
                  Returned (s1\<lparr>sent := sent s @ [(k, MoveDir ''left'')]\<rparr>)"
    by (simp add: s1_def Let_def)
qed

theorem key_priority_witness:
  "isConnected holding_up_left \<and> socket holding_up_left = Some 0
   \<and> 0 \<in> set (openSockets holding_up_left)
   \<and> keysPressed holding_up_left ArrowUp \<and> keysPressed holding_up_left ArrowLeft
   \<and> \<not> keysPressed holding_up_left ArrowDown
   \<and> sendMoveCommandForActiveKeys holding_up_left =
       Returned (holding_up_left\<lparr>sent :=
         [(0, JoinGame ''Mike''), (0, MoveDir ''up''), (0, MoveDir ''up'')]\<rparr>)
   \<and> handleKeyUp ''ArrowUp'' holding_up_left =
       Returned (holding_up_left\<lparr>keysPressed := (\<lambda>key. False)(ArrowLeft := True)\<rparr>)
   \<and> sendMoveCommandForActiveKeys
       (holding_up_left\<lparr>keysPressed := (\<lambda>key. False)(ArrowLeft := True)\<rparr>) =
       Returned (holding_up_left\<lparr>keysPressed := (\<lambda>key. False)(ArrowLeft := True),
         sent := [(0, JoinGame ''Mike''), (0, MoveDir ''up''), (0, MoveDir ''left'')]\<rparr>)"
proof -
  have e: "(\<lambda>key. False)(ArrowUp := True, ArrowLeft := True, ArrowUp := False) =
      (\<lambda>key. False)(ArrowLeft := True)"
    by (rule ext) simp
  show ?thesis
    using key_priority [of holding_up_left 0] by (simp add: Let_def e)
qed

text \<open>
  C9. While \<^verbatim>\<open>isConnected\<close> is false, each of the three senders (a directional move, on
  its own or through the priority loop, a stop, and a click-to-move) returns without
  throwing and leaves the whole state as it was: nothing is handed to the socket, and
  no field of the client holds the action for later.
\<close>

theorem send_disconnected_noop:
  assumes "\<not> isConnected s"
  shows "sendMoveCommand key s = Returned s
       \<and> sendMoveCommandForActiveKeys s = Returned s
       \<and> sendStopCommand s = Returned s
       \<and> handleCanvasClick ev s = Returned s"
  using assms
  by (simp add: sendMoveCommand_def sendMoveCommandForActiveKeys_def sendStopCommand_def
      handleCanvasClick_def)

theorem send_disconnected_noop_witness:
  "\<not> isConnected (new_client 800 600)
   \<and> sendMoveCommand ArrowUp (new_client 800 600) = Returned (new_client 800 600)
   \<and> sendMoveCommandForActiveKeys (new_client 800 600) = Returned (new_client 800 600)
   \<and> sendStopCommand (new_client 800 600) = Returned (new_client 800 600)
   \<and> handleCanvasClick \<lparr>clientX = 10, clientY = 20, rectLeft = 0, rectTop = 0\<rparr>
       (new_client 800 600) = Returned (new_client 800 600)"
proof -
  have h: "\<not> isConnected (new_client 800 600)"
    by (simp add: new_client_def connectToServer_def)
  show ?thesis
    using h send_disconnected_noop [OF h, of ArrowUp
        "\<lparr>clientX = 10, clientY = 20, rectLeft = 0, rectTop = 0\<rparr>"]
    by simp
qed

text \<open>
  C10. A key-up of an arrow key that arrives while the session is connected, no arrow
  key is held and no movement interval is running still sends one \<^verbatim>\<open>stop\<close>:
  \<^verbatim>\<open>stopContinuousMovement\<close> sends it whether or not it had an interval to clear.
\<close>

theorem keyup_sends_stop_without_loop:
  assumes "isConnected s" and "socket s = Some k" and "k \<in> set (openSockets s)"
    and "arrow_of name = Some key"
    and "\<not> anyKeyPressed s" and "\<not> truthy_handle (movementInterval s)"
  shows "handleKeyUp name s =
           Returned (s\<lparr>keysPressed := (keysPressed s)(key := False),
                       sent := sent s @ [(k, Stop)]\<rparr>)"
proof -
  define s1 where "s1 = s\<lparr>keysPressed := (keysPressed s)(key := False)\<rparr>"
  have "\<not> anyKeyPressed s1"
    using assms(5) by (auto simp add: anyKeyPressed_iff s1_def)
  then have "handleKeyUp name s = stopContinuousMovement s1"
    using assms(4) by (simp add: handleKeyUp_def Let_def s1_def)
  also have "\<dots> = sendStopCommand s1"
    using assms(6) by (simp add: stopContinuousMovement_def s1_def)
  also have "\<dots> = Returned (s1\<lparr>sent := sent s1 @ [(k, Stop)]\<rparr>)"
    using assms(1-3) by (simp add: sendStopCommand_def socket_send_open s1_def)
  finally show ?thesis by (simp add: s1_def)
qed

theorem keyup_sends_stop_without_loop_witness:
  "isConnected connected_client \<and> socket connected_client = Some 0
   \<and> 0 \<in> set (openSockets connected_client)
   \<and> arrow_of ''ArrowUp'' = Some ArrowUp
   \<and> \<not> anyKeyPressed connected_client
   \<and> \<not> truthy_handle (movementInterval connected_client)
   \<and> fire (SocketOpen 0) (new_client 800 600) = Some connected_client
   \<and> handleKeyUp ''ArrowUp'' connected_client =
       Returned (connected_client\<lparr>sent := [(0, JoinGame ''Mike''), (0, Stop)]\<rparr>)"
proof -
  have a: "\<not> anyKeyPressed connected_client"
    by (simp add: anyKeyPressed_iff)
  have f: "fire (SocketOpen 0) (new_client 800 600) = Some connected_client"
    by (simp add: connected_client_def new_client_def connectToServer_def socket_onopen_def
        joinGame_def socket_send_def)
  have e: "(\<lambda>key::arrow. False)(ArrowUp := False) = (\<lambda>key. False)"
    by (rule ext) simp
  have k: "connected_client\<lparr>keysPressed := (\<lambda>key. False)(ArrowUp := False)\<rparr> = connected_client"
    by (simp add: connected_client_def new_client_def connectToServer_def e)
  show ?thesis
    using a f keyup_sends_stop_without_loop [of connected_client 0 "''ArrowUp''" ArrowUp]
    by (simp add: k)
qed

subsection \<open>Click-to-move\<close>



subsection \<open>Snapshots and departures\<close>

lemma handleServerMessage_fields [simp]:
  "canvasWidth (state_of (handleServerMessage m s)) = canvasWidth s"
  "canvasHeight (state_of (handleServerMessage m s)) = canvasHeight s"
  "worldImage (state_of (handleServerMessage m s)) = worldImage s"
  "socket (state_of (handleServerMessage m s)) = socket s"
  "isConnected (state_of (handleServerMessage m s)) = isConnected s"
  "keysPressed (state_of (handleServerMessage m s)) = keysPressed s"
  "movementInterval (state_of (handleServerMessage m s)) = movementInterval s"
  "showMinimap (state_of (handleServerMessage m s)) = showMinimap s"
  "zoomLevel (state_of (handleServerMessage m s)) = zoomLevel s"
  "sent (state_of (handleServerMessage m s)) = sent s"
  "intervals (state_of (handleServerMessage m s)) = intervals s"
  "timeouts (state_of (handleServerMessage m s)) = timeouts s"
  "liveSockets (state_of (handleServerMessage m s)) = liveSockets s"
  "openSockets (state_of (handleServerMessage m s)) = openSockets s"
  "nextHandle (state_of (handleServerMessage m s)) = nextHandle s"
  "nextSocket (state_of (handleServerMessage m s)) = nextSocket s"
  "animationLoop (state_of (handleServerMessage m s)) = animationLoop s"
  by (cases m; cases "mergePlayers (map fst (case m of PlayersMoved upd \<Rightarrow> upd | _ \<Rightarrow> []))
        (case m of PlayersMoved upd \<Rightarrow> upd | _ \<Rightarrow> []) (players s)";
      simp add: handleJoinGameSuccess_def loadAvatarImages_def handlePlayersMove_def
        handlePlayerJoined_def handlePlayerLeft_def Let_def and_then_def
        split: slot.splits option.splits)+

lemma handleJoinGameSuccess_fields [simp]:
  "worldImage (state_of (handleJoinGameSuccess me ps avs s)) = worldImage s"
  "socket (state_of (handleJoinGameSuccess me ps avs s)) = socket s"
  "isConnected (state_of (handleJoinGameSuccess me ps avs s)) = isConnected s"
  "sent (state_of (handleJoinGameSuccess me ps avs s)) = sent s"
  "intervals (state_of (handleJoinGameSuccess me ps avs s)) = intervals s"
  "timeouts (state_of (handleJoinGameSuccess me ps avs s)) = timeouts s"
  "liveSockets (state_of (handleJoinGameSuccess me ps avs s)) = liveSockets s"
  "openSockets (state_of (handleJoinGameSuccess me ps avs s)) = openSockets s"
  "nextHandle (state_of (handleJoinGameSuccess me ps avs s)) = nextHandle s"
  "nextSocket (state_of (handleJoinGameSuccess me ps avs s)) = nextSocket s"
  using handleServerMessage_fields [of "JoinGameOk me ps avs" s] by simp_all

lemma snapshot_players [simp]:
  "players (state_of (handleJoinGameSuccess me ps avs s)) = ps"
  by (simp add: handleJoinGameSuccess_def loadAvatarImages_def Let_def)

lemma snapshot_returns:
  assumes "dom (playerPositions s) \<subseteq> dom (playerTargets s)"
    and "set (map fst ps) \<inter> set objectPrototype = {}" and "me \<notin> set objectPrototype"
  shows "\<exists>s1. handleJoinGameSuccess me ps avs s = Returned s1
          \<and> dom (playerPositions s1) \<subseteq> dom (playerTargets s1)
          \<and> (worldImage s \<longrightarrow>
               (\<forall>k \<in> set (map fst ps).
                  playerPositions s1 k \<noteq> None \<and> playerTargets s1 k \<noteq> None))"
proof -
  define s0 where "s0 = s\<lparr>playerId := Some me, players := ps, avatars := avs,
    myPlayer := map_of ps me\<rparr>"
  have n: "prop_of (map_of ps) me \<noteq> Inherited"
    using assms(3) by (simp add: prop_of_iff)
  then have e: "handleJoinGameSuccess me ps avs s = render 0 s0"
    by (simp add: handleJoinGameSuccess_def loadAvatarImages_def Let_def s0_def)
  have "dom (playerPositions s0) \<subseteq> dom (playerTargets s0)"
    "set (map fst (players s0)) \<inter> set objectPrototype = {}"
    "key_of (playerId s0) \<notin> set objectPrototype"
    using assms by (simp_all add: s0_def)
  from render_returns [OF this, of 0] show ?thesis
    unfolding e by (simp add: s0_def)
qed

lemma snapshot_keeps:
  "playerPositions s q \<noteq> None \<Longrightarrow>
   playerPositions (state_of (handleJoinGameSuccess me ps avs s)) q \<noteq> None"
  "playerTargets s q \<noteq> None \<Longrightarrow>
   playerTargets (state_of (handleJoinGameSuccess me ps avs s)) q \<noteq> None"
  by (cases "prop_of (map_of ps) me = Inherited";
      simp add: handleJoinGameSuccess_def loadAvatarImages_def render_keeps Let_def)+

lemma connected_client_reached:
  "fire (SocketOpen 0) (new_client 800 600) = Some connected_client"
  by (simp add: connected_client_def new_client_def connectToServer_def socket_onopen_def
      joinGame_def socket_send_def)

lemma connected_client_env [simp]:
  "liveSockets connected_client = [0]" "timeouts connected_client = []"
  "nextHandle connected_client = 1" "nextSocket connected_client = 1"
  "worldImage connected_client" "playerPositions connected_client = Map.empty"
  "playerTargets connected_client = Map.empty"
  by (simp_all add: connected_client_def new_client_def connectToServer_def)

text \<open>
  C3. The claim fails on a second snapshot. The client joins and receives a snapshot with
  the entities \<^verbatim>\<open>p1\<close> and \<^verbatim>\<open>p7\<close>, whose interpolation records the render creates; the
  socket closes, the reconnect timer fires, the new socket opens, and the snapshot of the
  new session holds \<^verbatim>\<open>p2\<close> only. \<^verbatim>\<open>handleJoinGameSuccess\<close> replaces \<^verbatim>\<open>this.players\<close>
  and leaves \<^verbatim>\<open>playerPositions\<close> and \<^verbatim>\<open>playerTargets\<close> alone: the records of \<^verbatim>\<open>p7\<close>
  are still there, for an id the store no longer holds.
\<close>

theorem snapshot_leaves_stale_interpolation:
  "\<exists>s. run [SocketOpen 0, SocketMessage 0 snapshot_two, SocketClose 0, TimeoutFires 1,
            SocketOpen 1, SocketMessage 1 snapshot_one] (new_client 800 600) = Some s
       \<and> map_of (players s) ''p7'' = None
       \<and> playerPositions s ''p7'' \<noteq> None
       \<and> playerTargets s ''p7'' \<noteq> None"
proof -
  define s2 where "s2 = state_of (handleJoinGameSuccess ''p1'' [(''p1'', alice), (''p7'', bob)] []
    connected_client)"
  define s3 where "s3 = socket_onclose (s2\<lparr>liveSockets := [], openSockets := []\<rparr>)"
  define s4 where "s4 = connectToServer (s3\<lparr>timeouts := []\<rparr>)"
  define s5 where "s5 = state_of (socket_onopen (s4\<lparr>openSockets := [1]\<rparr>))"
  define s6 where "s6 = state_of (handleJoinGameSuccess ''p2'' [(''p2'', alice)] [] s5)"
  have "\<exists>s1. handleJoinGameSuccess ''p1'' [(''p1'', alice), (''p7'', bob)] [] connected_client =
          Returned s1
        \<and> dom (playerPositions s1) \<subseteq> dom (playerTargets s1)
        \<and> (worldImage connected_client \<longrightarrow>
             (\<forall>k \<in> set (map fst [(''p1'', alice), (''p7'', bob)]).
                playerPositions s1 k \<noteq> None \<and> playerTargets s1 k \<noteq> None))"
    by (rule snapshot_returns) (simp_all add: objectPrototype_def)
  then obtain sa where a: "handleJoinGameSuccess ''p1'' [(''p1'', alice), (''p7'', bob)] []
        connected_client = Returned sa"
    and da: "dom (playerPositions sa) \<subseteq> dom (playerTargets sa)"
    and pa: "playerPositions sa ''p7'' \<noteq> None" "playerTargets sa ''p7'' \<noteq> None"
    by auto
  from a have "s2 = sa" by (simp add: s2_def)
  with a da pa have r2: "handleJoinGameSuccess ''p1'' [(''p1'', alice), (''p7'', bob)] []
        connected_client = Returned s2"
    and d2: "dom (playerPositions s2) \<subseteq> dom (playerTargets s2)"
    and p2: "playerPositions s2 ''p7'' \<noteq> None" "playerTargets s2 ''p7'' \<noteq> None"
    by simp_all
  have f2: "fire (SocketMessage 0 snapshot_two) connected_client = Some s2"
    by (simp add: r2 socket_onmessage_def snapshot_two_def)
  have f3: "fire (SocketClose 0) s2 = Some s3"
    by (simp add: s2_def s3_def)
  have f4: "fire (TimeoutFires 1) s3 = Some s4"
    by (simp add: s2_def s3_def s4_def socket_onclose_def)
  have f5: "fire (SocketOpen 1) s4 = Some s5"
    by (simp add: s2_def s3_def s4_def s5_def socket_onclose_def connectToServer_def)
  have o5: "openSockets s5 = [1]"
    by (simp add: s5_def socket_onopen_def joinGame_def socket_send_def s4_def
        connectToServer_def)
  have p5: "playerPositions s5 = playerPositions s2" "playerTargets s5 = playerTargets s2"
    by (simp_all add: s5_def socket_onopen_def joinGame_def socket_send_def s4_def
        connectToServer_def s3_def socket_onclose_def)
  have "\<exists>s1. handleJoinGameSuccess ''p2'' [(''p2'', alice)] [] s5 = Returned s1
        \<and> dom (playerPositions s1) \<subseteq> dom (playerTargets s1)
        \<and> (worldImage s5 \<longrightarrow>
             (\<forall>k \<in> set (map fst [(''p2'', alice)]).
                playerPositions s1 k \<noteq> None \<and> playerTargets s1 k \<noteq> None))"
    by (rule snapshot_returns) (simp_all add: objectPrototype_def p5 d2)
  then have r6: "handleJoinGameSuccess ''p2'' [(''p2'', alice)] [] s5 = Returned s6"
    unfolding s6_def by auto
  have f6: "fire (SocketMessage 1 snapshot_one) s5 = Some s6"
    by (simp add: r6 o5 socket_onmessage_def snapshot_one_def)
  have "playerPositions s6 ''p7'' \<noteq> None"
    unfolding s6_def by (rule snapshot_keeps(1)) (simp add: p5 p2)
  moreover have "playerTargets s6 ''p7'' \<noteq> None"
    unfolding s6_def by (rule snapshot_keeps(2)) (simp add: p5 p2)
  moreover have "map_of (players s6) ''p7'' = None"
    by (simp add: s6_def)
  moreover have "run [SocketOpen 0, SocketMessage 0 snapshot_two, SocketClose 0, TimeoutFires 1,
            SocketOpen 1, SocketMessage 1 snapshot_one] (new_client 800 600) = Some s6"
    by (simp only: run.simps connected_client_reached f2 f3 f4 f5 f6 option.simps)
  ultimately show ?thesis by blast
qed

text \<open>
  The sibling path does clear them: after a \<^verbatim>\<open>player_left\<close> message the id is gone from the
  store and from both interpolation tables, and the render that follows does not bring
  it back.
\<close>

lemma player_left_clears:
  "map_of (players (state_of (handlePlayerLeft pid s))) pid = None
   \<and> playerPositions (state_of (handlePlayerLeft pid s)) pid = None
   \<and> playerTargets (state_of (handlePlayerLeft pid s)) pid = None"
proof -
  define s0 where "s0 = s\<lparr>players := AList.delete pid (players s),
      playerPositions := (playerPositions s)(pid := None),
      playerTargets := (playerTargets s)(pid := None)\<rparr>"
  have m: "map_of (players s0) pid = None"
    by (simp add: s0_def delete_conv')
  from render_other [OF m, of 0] m show ?thesis
    by (simp add: handlePlayerLeft_def s0_def)
qed

subsection \<open>Animation frame\<close>

lemma animationFrame_floor:
  "truthy (props player ''isMoving'') \<Longrightarrow> \<lfloor>jdiv timer 200\<rfloor> = k \<Longrightarrow>
   animationFrame player timer = k smod 3"
  by (simp add: animationFrame_def)

lemma negative_timer_floor: "\<lfloor>jdiv (- (1 / 2 ^ 46)) 200\<rfloor> = - 1"
proof -
  define q where "q = jdiv (- (1 / 2 ^ 46)) 200"
  have "is_double (of_int (- 1))" by (rule is_double_of_int) simp
  then have d1: "is_double (- 1)" by simp
  have d2: "is_double (of_int (- 1) / 2 ^ 60)"
    by (rule is_double_dyadic) simp_all
  have "- 1 \<le> (- (1 / 2 ^ 46)) / (200::real)" by simp
  with d1 have lo: "- 1 \<le> q"
    unfolding q_def jdiv_def by (rule rnd64_ge_double)
  have "(- (1 / 2 ^ 46)) / (200::real) \<le> of_int (- 1) / 2 ^ 60" by simp
  with d2 have "q \<le> of_int (- 1) / 2 ^ 60"
    unfolding q_def jdiv_def by (rule rnd64_le_double)
  then have hi: "q < 0" by simp
  from lo hi have "\<lfloor>q\<rfloor> = - 1" by linarith
  then show ?thesis unfolding q_def .
qed

lemma clock_16_80:
  fixes t1 t2 :: real
  assumes "t1 = 2336242306698445 / 2 ^ 47" and "t2 = 5678757655137485 / 2 ^ 46"
  shows "jadd 0 (jsub 0 0) = 0"
    and "jadd 0 (jsub t1 0) = t1"
    and "jadd (jadd t1 (jsub t2 t1)) (jsub 0 t2) = - (1 / 2 ^ 46)"
proof -
  show "jadd 0 (jsub 0 0) = 0"
    by (simp add: jadd_def jsub_def rnd64_def)
  have "is_double (of_int 2336242306698445 / 2 ^ 47)"
    by (rule is_double_dyadic) simp_all
  then have "is_double t1" by (simp add: assms)
  then have 1: "rnd64 t1 = t1" by (rule rnd64_is_double_id)
  then show "jadd 0 (jsub t1 0) = t1"
    by (simp add: jadd_def jsub_def)
  define d where "d = (4510636501788262 / 2 ^ 46 :: real)"
  define u where "u = (5678757655137484 / 2 ^ 46 :: real)"
  have "rnd64 (5678757655137485 / 2 ^ 46 - 2336242306698445 / 2 ^ 47) =
      of_int 4510636501788262 * 2 powi (6 - 52)"
    by (rule rnd64_eval) (simp_all add: power_int_minus round_half_even_def Let_def)
  then have 2: "jsub t2 t1 = d"
    by (simp add: jsub_def power_int_minus assms d_def)
  have "rnd64 (2336242306698445 / 2 ^ 47 + 4510636501788262 / 2 ^ 46) =
      of_int 5678757655137484 * 2 powi (6 - 52)"
    by (rule rnd64_eval) (simp_all add: power_int_minus round_half_even_def Let_def)
  then have 3: "jadd t1 d = u"
    by (simp add: jadd_def power_int_minus assms d_def u_def)
  have "is_double (of_int (- 5678757655137485) / 2 ^ 46)"
    by (rule is_double_dyadic) simp_all
  then have "is_double (- t2)" by (simp add: assms)
  then have 4: "rnd64 (- t2) = - t2" by (rule rnd64_is_double_id)
  have "is_double (of_int (- 1) / 2 ^ 46)"
    by (rule is_double_dyadic) simp_all
  then have "is_double (- (1 / 2 ^ 46))" by simp
  then have 5: "rnd64 (- (1 / 2 ^ 46)) = - (1 / 2 ^ 46)" by (rule rnd64_is_double_id)
  have 6: "u + - t2 = - (1 / 2 ^ 46)"
    by (simp add: u_def assms)
  have "jadd u (jsub 0 t2) = rnd64 (u + - t2)"
    by (simp add: jadd_def jsub_def 4)
  also have "\<dots> = - (1 / 2 ^ 46)" by (simp only: 6 5)
  finally show "jadd (jadd t1 (jsub t2 t1)) (jsub 0 t2) = - (1 / 2 ^ 46)"
    by (simp only: 2 3)
qed

lemma lit_frames:
  "lit (166 / 10) = 2336242306698445 / 2 ^ 47" "lit (807 / 10) = 5678757655137485 / 2 ^ 46"
proof -
  have "rnd64 (166 / 10) = of_int 4672484613396890 * 2 powi (4 - 52)"
    by (rule rnd64_eval) (simp_all add: power_int_minus round_half_even_def Let_def)
  then show "lit (166 / 10) = 2336242306698445 / 2 ^ 47"
    by (simp add: lit_def power_int_minus)
  have "rnd64 (807 / 10) = of_int 5678757655137485 * 2 powi (6 - 52)"
    by (rule rnd64_eval) (simp_all add: power_int_minus round_half_even_def Let_def)
  then show "lit (807 / 10) = 5678757655137485 / 2 ^ 46"
    by (simp add: lit_def power_int_minus)
qed

lemma snapshot_clock:
  assumes "me \<notin> set objectPrototype"
  shows "playerId (state_of (handleJoinGameSuccess me ps avs s)) = Some me"
    and "animationLoop (state_of (handleJoinGameSuccess me ps avs s)) = animationLoop s"
    and "lastFrameTime (state_of (handleJoinGameSuccess me ps avs s)) = 0"
    and "animationTimer (state_of (handleJoinGameSuccess me ps avs s)) =
           jadd (animationTimer s) (jsub 0 (lastFrameTime s))"
proof -
  define s0 where "s0 = s\<lparr>playerId := Some me, players := ps, avatars := avs,
    myPlayer := map_of ps me\<rparr>"
  have "prop_of (map_of ps) me \<noteq> Inherited"
    using assms by (simp add: prop_of_iff)
  then have e: "handleJoinGameSuccess me ps avs s = render 0 s0"
    by (simp add: handleJoinGameSuccess_def loadAvatarImages_def Let_def s0_def)
  show "playerId (state_of (handleJoinGameSuccess me ps avs s)) = Some me"
    and "animationLoop (state_of (handleJoinGameSuccess me ps avs s)) = animationLoop s"
    and "lastFrameTime (state_of (handleJoinGameSuccess me ps avs s)) = 0"
    and "animationTimer (state_of (handleJoinGameSuccess me ps avs s)) =
           jadd (animationTimer s) (jsub 0 (lastFrameTime s))"
    unfolding e by (simp_all add: render_clock) (simp_all add: s0_def)
qed

text \<open>
  C8. For an entity that is not moving the frame index that \<^verbatim>\<open>drawPlayer\<close> selects is 0
  whatever the timer. For a moving entity and an animation timer that is not negative it
  is the floor of the timer divided by 200, modulo 3, the division being the program's; at
  a timer of 450 it is 2. The timer can be negative: \<^verbatim>\<open>render()\<close> called without a
  timestamp, as the load of the world image and every server message do, adds
  \<open>0 - lastFrameTime\<close> to the timer, and the rounding of the additions before can have left
  the timer below that timestamp. After a snapshot with a moving entity, frames at 16.6
  and 80.7 milliseconds and the load of the image, the timer is \<open>- (1 / 2 ^ 46)\<close>; the
  remainder operator \<^verbatim>\<open>%\<close> then gives the moving entity the index \<open>- 1\<close>, where the
  floor of the timer divided by 200, modulo 3, is 2.
\<close>

theorem animation_frame:
  "(truthy (props player ''isMoving'') \<longrightarrow> 0 \<le> timer \<longrightarrow>
      animationFrame player timer = \<lfloor>jdiv timer 200\<rfloor> mod 3)
   \<and> (truthy (props player ''isMoving'') \<longrightarrow> animationFrame player 450 = 2)
   \<and> (\<not> truthy (props player ''isMoving'') \<longrightarrow> animationFrame player timer = 0)
   \<and> (\<exists>s. run [SocketOpen 0, SocketMessage 0 snapshot_two, Frame (lit (166 / 10)),
               Frame (lit (807 / 10)), ImageLoaded] (new_client 800 600) = Some s
          \<and> map_of (players s) ''p7'' = Some bob \<and> truthy (props bob ''isMoving'')
          \<and> animationTimer s = - (1 / 2 ^ 46)
          \<and> animationFrame bob (animationTimer s) = - 1
          \<and> \<lfloor>jdiv (animationTimer s) 200\<rfloor> mod 3 = 2)"
proof (intro conjI impI)
  assume m: "truthy (props player ''isMoving'')" and t: "0 \<le> timer"
  have "0 \<le> jdiv timer 200"
    unfolding jdiv_def using t by (intro rnd64_nonneg) simp
  then have "0 \<le> \<lfloor>jdiv timer 200\<rfloor>" by simp
  then show "animationFrame player timer = \<lfloor>jdiv timer 200\<rfloor> mod 3"
    using m by (simp add: animationFrame_def smod_nonneg)
next
  assume m: "truthy (props player ''isMoving'')"
  have "is_double (of_int 9 / 2 ^ 2)"
    by (rule is_double_dyadic) simp_all
  then have "rnd64 (9 / 4) = 9 / 4"
    using rnd64_is_double_id [of "9 / 4"] by simp
  then have j: "jdiv 450 200 = 9 / 4" by (simp add: jdiv_def)
  have "\<lfloor>jdiv 450 200\<rfloor> = \<lfloor>9 / 4 :: real\<rfloor>" by (simp only: j)
  also have "\<dots> = 2" by simp
  finally have "\<lfloor>jdiv 450 200\<rfloor> = 2" .
  then show "animationFrame player 450 = 2"
    using m by (simp add: animationFrame_def smod_nonneg)
next
  assume "\<not> truthy (props player ''isMoving'')"
  then show "animationFrame player timer = 0"
    by (simp add: animationFrame_def)
next
  define t1 where "t1 = lit (166 / 10)"
  define t2 where "t2 = lit (807 / 10)"
  define ps where "ps = [(''p1'', alice), (''p7'', bob)]"
  define s2 where "s2 = state_of (handleJoinGameSuccess ''p1'' ps [] connected_client)"
  define s3 where "s3 = state_of (render t1 s2)"
  define s4 where "s4 = state_of (render t2 s3)"
  define s5 where "s5 = state_of (render 0 s4)"
  have plain: "''p1'' \<notin> set objectPrototype" "set (map fst ps) \<inter> set objectPrototype = {}"
    by (simp_all add: objectPrototype_def ps_def)
  have "\<exists>s1. handleJoinGameSuccess ''p1'' ps [] connected_client = Returned s1
        \<and> dom (playerPositions s1) \<subseteq> dom (playerTargets s1)
        \<and> (worldImage connected_client \<longrightarrow>
             (\<forall>k \<in> set (map fst ps). playerPositions s1 k \<noteq> None \<and> playerTargets s1 k \<noteq> None))"
    using plain by (intro snapshot_returns) simp_all
  then obtain sa where a: "handleJoinGameSuccess ''p1'' ps [] connected_client = Returned sa"
    and da: "dom (playerPositions sa) \<subseteq> dom (playerTargets sa)"
    by auto
  from a have "s2 = sa" by (simp add: s2_def)
  with a da have r2: "handleJoinGameSuccess ''p1'' ps [] connected_client = Returned s2"
    and d2: "dom (playerPositions s2) \<subseteq> dom (playerTargets s2)"
    by simp_all
  have f2: "fire (SocketMessage 0 snapshot_two) connected_client = Some s2"
    by (simp add: r2 socket_onmessage_def snapshot_two_def ps_def [symmetric])
  have k2: "players s2 = ps" "playerId s2 = Some ''p1''" "animationLoop s2"
    "lastFrameTime s2 = 0" "animationTimer s2 = jadd 0 (jsub 0 0)"
    using snapshot_clock [OF plain(1), of ps "[]" connected_client]
    by (simp_all add: s2_def) (simp_all add: connected_client_def new_client_def
        connectToServer_def)
  have i2: "set (map fst (players s2)) \<inter> set objectPrototype = {}"
    "key_of (playerId s2) \<notin> set objectPrototype"
    using plain by (simp_all add: k2)
  note t3 = frame_turn [OF k2(3) d2 i2, of t1, folded s3_def]
  have k3: "players s3 = ps" "playerId s3 = Some ''p1''" "animationLoop s3"
    "lastFrameTime s3 = t1" "animationTimer s3 = jadd (jadd 0 (jsub 0 0)) (jsub t1 0)"
    by (simp_all add: s3_def render_clock k2)
  have i3: "set (map fst (players s3)) \<inter> set objectPrototype = {}"
    "key_of (playerId s3) \<notin> set objectPrototype"
    using plain by (simp_all add: k3)
  note t4 = frame_turn [OF k3(3) t3(3) i3, of t2, folded s4_def]
  have k4: "players s4 = ps" "playerId s4 = Some ''p1''" "animationLoop s4"
    "lastFrameTime s4 = t2"
    "animationTimer s4 = jadd (jadd (jadd 0 (jsub 0 0)) (jsub t1 0)) (jsub t2 t1)"
    by (simp_all add: s4_def render_clock k3)
  have i4: "set (map fst (players s4)) \<inter> set objectPrototype = {}"
    "key_of (playerId s4) \<notin> set objectPrototype"
    using plain by (simp_all add: k4)
  note t5 = frame_turn [OF k4(3) t4(3) i4, of 0, folded s5_def]
  have f5: "fire ImageLoaded s4 = Some s5"
    using t5(2) by simp
  have v: "t1 = 2336242306698445 / 2 ^ 47" "t2 = 5678757655137485 / 2 ^ 46"
    by (simp_all only: t1_def t2_def lit_frames)
  have "animationTimer s5 =
      jadd (jadd (jadd (jadd 0 (jsub 0 0)) (jsub t1 0)) (jsub t2 t1)) (jsub 0 t2)"
    by (simp add: s5_def render_clock k4)
  also have "\<dots> = - (1 / 2 ^ 46)"
    by (simp only: clock_16_80 [OF v])
  finally have tm: "animationTimer s5 = - (1 / 2 ^ 46)" .
  have b: "map_of (players s5) ''p7'' = Some bob"
    by (simp add: s5_def k4 ps_def)
  have mv: "truthy (props bob ''isMoving'')"
    by (simp add: bob_def)
  have fl: "\<lfloor>jdiv (animationTimer s5) 200\<rfloor> = - 1"
    unfolding tm by (rule negative_timer_floor)
  from animationFrame_floor [OF mv fl] have af: "animationFrame bob (animationTimer s5) = - 1"
    by (simp add: signed_modulo_int_def)
  from fl have md: "\<lfloor>jdiv (animationTimer s5) 200\<rfloor> mod 3 = 2" by simp
  have "run [SocketOpen 0, SocketMessage 0 snapshot_two, Frame t1, Frame t2, ImageLoaded]
      (new_client 800 600) = Some s5"
    by (simp only: run.simps connected_client_reached f2 t3(1) t4(1) f5 option.simps)
  with b mv tm af md show "\<exists>s. run [SocketOpen 0, SocketMessage 0 snapshot_two,
               Frame (lit (166 / 10)), Frame (lit (807 / 10)), ImageLoaded]
               (new_client 800 600) = Some s
          \<and> map_of (players s) ''p7'' = Some bob \<and> truthy (props bob ''isMoving'')
          \<and> animationTimer s = - (1 / 2 ^ 46)
          \<and> animationFrame bob (animationTimer s) = - 1
          \<and> \<lfloor>jdiv (animationTimer s) 200\<rfloor> mod 3 = 2"
    unfolding t1_def t2_def by blast
qed

theorem animation_frame_witness:
  "truthy (props bob ''isMoving'') \<and> (0::real) \<le> 450
   \<and> animationFrame bob 450 = \<lfloor>jdiv 450 200\<rfloor> mod 3
   \<and> animationFrame bob 450 = 2
   \<and> \<not> truthy (props alice ''isMoving'')
   \<and> animationFrame alice 450 = 0"
  using animation_frame [of bob 450] animation_frame [of alice 450]
  by (simp add: bob_def alice_def)

subsection \<open>Timers\<close>

lemma settled_state_of: "settled r = Some s1 \<Longrightarrow> s1 = state_of r"
  by (cases r) simp_all

lemma timers_inv_view: "timer_view s1 = timer_view s \<Longrightarrow> timers_inv s1 = timers_inv s"
  by (simp add: timer_view_def timers_inv_def)

lemma view_render [simp]: "timer_view (state_of (render t s)) = timer_view s"
  by (simp add: timer_view_def)

lemma view_message [simp]: "timer_view (state_of (handleServerMessage m s)) = timer_view s"
  by (simp add: timer_view_def)

lemma view_socket_send [simp]: "timer_view (state_of (socket_send m s)) = timer_view s"
  by (simp add: timer_view_def socket_send_def split: option.splits)

lemma view_sendMoveCommand [simp]: "timer_view (state_of (sendMoveCommand key s)) = timer_view s"
  by (simp add: sendMoveCommand_def Let_def)

lemma view_sendMoveCommandForActiveKeys [simp]:
  "timer_view (state_of (sendMoveCommandForActiveKeys s)) = timer_view s"
  by (simp add: sendMoveCommandForActiveKeys_def sendFirstActive_keyPriority)

lemma view_sendStopCommand [simp]: "timer_view (state_of (sendStopCommand s)) = timer_view s"
  by (simp add: sendStopCommand_def)

lemma view_handleCanvasClick [simp]:
  "timer_view (state_of (handleCanvasClick ev s)) = timer_view s"
proof -
  have "timer_view (state_of (socket_send m s)) = timer_view s" for m by simp
  then show ?thesis
    by (simp add: handleCanvasClick_def Let_def del: view_socket_send)
qed

lemma view_handleMouseWheel [simp]:
  "timer_view (state_of (handleMouseWheel d s)) = timer_view s"
  by (simp add: handleMouseWheel_def Let_def) (simp add: timer_view_def)

lemma view_resizeCanvas [simp]: "timer_view (state_of (resizeCanvas w h s)) = timer_view s"
  by (simp add: resizeCanvas_def Let_def) (simp add: timer_view_def)

lemma view_handleKeyboardShortcuts [simp]:
  "timer_view (handleKeyboardShortcuts k s) = timer_view s"
  by (simp add: handleKeyboardShortcuts_def timer_view_def)

lemma inv_startContinuousMovement:
  assumes "timers_inv s"
  shows "timers_inv (state_of (startContinuousMovement s))"
proof (cases "truthy_handle (movementInterval s)")
  case True
  with assms show ?thesis by (simp add: startContinuousMovement_def)
next
  case False
  with assms have none: "movementInterval s = None" "intervals s = []"
    by (auto simp add: timers_inv_def split: option.splits)
  show ?thesis
  proof (cases "sendMoveCommandForActiveKeys s")
    case (Threw s1)
    then have "state_of (startContinuousMovement s) = state_of (sendMoveCommandForActiveKeys s)"
      using False by (simp add: startContinuousMovement_def and_then_def)
    then show ?thesis
      using assms timers_inv_view [of "state_of (sendMoveCommandForActiveKeys s)" s] by simp
  next
    case (Beyond s1)
    then have "state_of (startContinuousMovement s) = state_of (sendMoveCommandForActiveKeys s)"
      using False by (simp add: startContinuousMovement_def and_then_def)
    then show ?thesis
      using assms timers_inv_view [of "state_of (sendMoveCommandForActiveKeys s)" s] by simp
  next
    case (Returned s1)
    then have v: "timer_view s1 = timer_view s"
      using view_sendMoveCommandForActiveKeys [of s] by simp
    have "state_of (startContinuousMovement s) =
        s1\<lparr>movementInterval := Some (nextHandle s1),
            intervals := nextHandle s1 # intervals s1,
            nextHandle := Suc (nextHandle s1)\<rparr>"
      using False Returned by (simp add: startContinuousMovement_def and_then_def)
    with assms v none show ?thesis
      by (simp add: timers_inv_def timer_view_def)
  qed
qed

lemma inv_handleKeyDown:
  assumes "timers_inv s"
  shows "timers_inv (state_of (handleKeyDown k s))"
proof -
  have "timers_inv (s\<lparr>keysPressed := kp\<rparr>)" for kp
    using assms by (simp add: timers_inv_def)
  then show ?thesis
    using assms by (simp add: handleKeyDown_def inv_startContinuousMovement split: option.splits)
qed

lemma stopContinuousMovement_clears:
  assumes "timers_inv s"
  shows "intervals (state_of (stopContinuousMovement s)) = []"
    and "movementInterval (state_of (stopContinuousMovement s)) = None"
    and "timers_inv (state_of (stopContinuousMovement s))"
proof -
  define s1 where "s1 = (if truthy_handle (movementInterval s)
        then s\<lparr>intervals := removeAll (the (movementInterval s)) (intervals s),
               movementInterval := None\<rparr>
        else s)"
  have 1: "intervals s1 = []" "movementInterval s1 = None" "timers_inv s1"
    using assms by (auto simp add: s1_def timers_inv_def split: option.splits)
  have v: "timer_view (state_of (sendStopCommand s1)) = timer_view s1" by simp
  have e: "stopContinuousMovement s = sendStopCommand s1"
    by (simp add: stopContinuousMovement_def s1_def)
  from v 1 show "intervals (state_of (stopContinuousMovement s)) = []"
    and "movementInterval (state_of (stopContinuousMovement s)) = None"
    unfolding e by (simp_all add: timer_view_def)
  from timers_inv_view [OF v] 1 show "timers_inv (state_of (stopContinuousMovement s))"
    unfolding e by simp
qed

lemma inv_handleKeyUp:
  assumes "timers_inv s"
  shows "timers_inv (state_of (handleKeyUp k s))"
proof -
  have "timers_inv (s\<lparr>keysPressed := kp\<rparr>)" for kp
    using assms by (simp add: timers_inv_def)
  then show ?thesis
    using assms
    by (simp add: handleKeyUp_def Let_def stopContinuousMovement_clears split: option.splits)
qed

lemma inv_new_client: "timers_inv (new_client w h)"
  by (simp add: timers_inv_def new_client_def connectToServer_def)

lemma removeAll_only: "set xs \<subseteq> {k} \<Longrightarrow> removeAll k xs = []"
  by (induction xs) auto

lemma inv_fire:
  assumes "timers_inv s" and "fire e s = Some s1"
  shows "timers_inv s1"
proof (cases e)
  case (KeyDown k)
  with assms(2) have "s1 = handleKeyboardShortcuts k (state_of (handleKeyDown k s))" by simp
  with inv_handleKeyDown [OF assms(1), of k] show ?thesis
    using timers_inv_view [of s1 "state_of (handleKeyDown k s)"] by simp
next
  case (KeyUp k)
  with assms inv_handleKeyUp [of s k] show ?thesis by simp
next
  case (Click ev)
  with assms timers_inv_view [of s1 s] show ?thesis by auto
next
  case (Wheel d)
  with assms(2) have "s1 = state_of (handleMouseWheel d s)"
    by (simp add: settled_state_of)
  with assms(1) timers_inv_view [of s1 s] show ?thesis by simp
next
  case (Resize w h)
  with assms(2) have "s1 = state_of (resizeCanvas w h s)"
    by (simp add: settled_state_of)
  with assms(1) timers_inv_view [of s1 s] show ?thesis by simp
next
  case ImageLoaded
  with assms(2) have "s1 = state_of (render 0 s)"
    by (simp add: settled_state_of)
  with assms(1) timers_inv_view [of s1 s] show ?thesis by simp
next
  case (Frame t)
  have "timer_view (state_of (render t s)) = timer_view s" by simp
  with Frame assms(2) have "timer_view s1 = timer_view s"
    by (cases "render t s") (auto simp add: timer_view_def split: if_splits)
  with assms(1) timers_inv_view show ?thesis by blast
next
  case (IntervalTick h)
  with assms timers_inv_view [of s1 s] show ?thesis by (auto split: if_splits)
next
  case (TimeoutFires h)
  with assms(2) have h: "h \<in> set (timeouts s)"
    and s1: "s1 = connectToServer (s\<lparr>timeouts := removeAll h (timeouts s)\<rparr>)"
    by (auto split: if_splits)
  from h assms(1) have t: "timeouts s = [h]" "liveSockets s = []"
    by (cases "timeouts s"; auto simp add: timers_inv_def)+
  with assms(1) have "openSockets s = []" "\<not> isConnected s"
    by (auto simp add: timers_inv_def)
  with assms(1) t show ?thesis
    by (simp add: s1 connectToServer_def timers_inv_def)
next
  case (SocketOpen k)
  with assms(2) have k: "k \<in> set (liveSockets s)"
    and s1: "s1 = state_of (socket_onopen (s\<lparr>openSockets := k # openSockets s\<rparr>))"
    by (auto split: if_splits)
  define s0 where "s0 = s\<lparr>openSockets := k # openSockets s, isConnected := True\<rparr>"
  have "timers_inv s0"
    using assms(1) k by (auto simp add: s0_def timers_inv_def)
  moreover have "timer_view s1 = timer_view s0"
    by (simp add: s1 socket_onopen_def joinGame_def s0_def)
  ultimately show ?thesis using timers_inv_view by blast
next
  case (SocketMessage k m)
  with assms(2) have "s1 = state_of (handleServerMessage m s)"
    by (simp add: socket_onmessage_def settled_state_of split: if_splits)
  with assms(1) timers_inv_view [of s1 s] show ?thesis by simp
next
  case (SocketGarbage k)
  with assms show ?thesis by (auto split: if_splits)
next
  case (SocketClose k)
  with assms(2) have k: "k \<in> set (liveSockets s)"
    and s1: "s1 = socket_onclose (s\<lparr>liveSockets := removeAll k (liveSockets s),
                      openSockets := removeAll k (openSockets s)\<rparr>)"
    by (auto split: if_splits)
  from k assms(1) have l: "liveSockets s = [k]" "timeouts s = []"
    by (cases "liveSockets s"; auto simp add: timers_inv_def)+
  with assms(1) have "removeAll k (openSockets s) = []"
    by (intro removeAll_only) (simp add: timers_inv_def)
  with assms(1) l show ?thesis
    by (simp add: s1 socket_onclose_def timers_inv_def)
qed

lemma reachable_timers_inv: "reachable s \<Longrightarrow> timers_inv s"
  by (induction rule: reachable.induct) (simp_all add: inv_new_client inv_fire)


lemma reachable_connected:
  "reachable s \<Longrightarrow> isConnected s \<Longrightarrow> \<exists>k. socket s = Some k \<and> k \<in> set (openSockets s)"
  using reachable_timers_inv [of s] by (simp add: timers_inv_def)




end
